theory Spec2Isabelle
  imports Main
begin

section \<open>Strings, characters and errors\<close>

text \<open>
  A Python 3 \<^verbatim>\<open>str\<close> is a sequence of Unicode code points, so a string is a list of
  code points here.  The Cyrillic letters of the source are written by their code points
  (\<^verbatim>\<open>0x430\<close> to \<^verbatim>\<open>0x44F\<close> are the small letters a to ya, \<^verbatim>\<open>0x451\<close> is yo).
\<close>

type_synonym ustring = "nat list"

text \<open>The exceptions that the standard library calls of the spiders can raise.\<close>

datatype py_error = ValueError | OverflowError | ReError | IndexError

fun bnd :: "'e + 'a \<Rightarrow> ('a \<Rightarrow> 'e + 'b) \<Rightarrow> 'e + 'b" where
  "bnd (Inl e) f = Inl e"
| "bnd (Inr x) f = f x"

text \<open>
  \<^verbatim>\<open>try: ... except Exception: return None\<close>: every exception of the body becomes
  the result \<^verbatim>\<open>None\<close>.
\<close>

fun except_none :: "py_error + 'a option \<Rightarrow> 'a option" where
  "except_none (Inl e) = None"
| "except_none (Inr r) = r"

text \<open>
  The decimal digits (category Nd) of the Unicode data of CPython 3.11: each entry is the
  code point of a digit zero and is followed by the digits one to nine.  Both \<^verbatim>\<open>\d\<close> and
  \<^verbatim>\<open>int()\<close> read this table.
\<close>

definition nd_zeros :: "nat list" where
  "nd_zeros = [48, 1632, 1776, 1984, 2406, 2534, 2662, 2790, 2918, 3046, 3174, 3302, 3430,
     3558, 3664, 3792, 3872, 4160, 4240, 6112, 6160, 6470, 6608, 6784, 6800, 6992, 7088,
     7232, 7248, 42528, 43216, 43264, 43472, 43504, 43600, 44016, 65296, 66720, 68912,
     69734, 69872, 69942, 70096, 70384, 70736, 70864, 71248, 71360, 71472, 71904, 72016,
     72784, 73040, 73120, 92768, 92864, 93008, 120782, 120792, 120802, 120812, 120822,
     123200, 123632, 125264, 130032]"

definition digit_value :: "nat \<Rightarrow> nat option" where
  "digit_value c = (case find (\<lambda>z. z \<le> c \<and> c < z + 10) nd_zeros of
       None \<Rightarrow> None | Some z \<Rightarrow> Some (c - z))"

definition is_digit :: "nat \<Rightarrow> bool" where
  "is_digit c = (digit_value c \<noteq> None)"

text \<open>White space as \<^verbatim>\<open>str.strip\<close>, \<^verbatim>\<open>str.isspace\<close> and \<^verbatim>\<open>\s\<close> see it.\<close>

definition is_space :: "nat \<Rightarrow> bool" where
  "is_space c = ((0x9 \<le> c \<and> c \<le> 0xD) \<or> (0x1C \<le> c \<and> c \<le> 0x20) \<or> c = 0x85 \<or> c = 0xA0
      \<or> c = 0x1680 \<or> (0x2000 \<le> c \<and> c \<le> 0x200A) \<or> c = 0x2028 \<or> c = 0x2029
      \<or> c = 0x202F \<or> c = 0x205F \<or> c = 0x3000)"

text \<open>
  Lower-casing of one code point, on the basic Latin and the Cyrillic capital letters.
  The patterns and tables of bankinform and rb hold Cyrillic small letters, digits and
  ASCII punctuation only, and no other code point lower-cases to one of these.  The
  literals of plusworld hold other code points as well, which this function leaves as
  they are; the spider looks for them letter for letter, with \<^verbatim>\<open>in\<close>, and its patterns
  that hold them sit behind a pattern that does not compile.
\<close>

definition to_lower :: "nat \<Rightarrow> nat" where
  "to_lower c = (if 0x41 \<le> c \<and> c \<le> 0x5A then c + 0x20
       else if 0x410 \<le> c \<and> c \<le> 0x42F then c + 0x20
       else if 0x400 \<le> c \<and> c \<le> 0x40F then c + 0x50
       else c)"

definition lower :: "ustring \<Rightarrow> ustring" where
  "lower s = map to_lower s"

text \<open>
  With \<^verbatim>\<open>re.IGNORECASE\<close> a Cyrillic small letter of a pattern also matches the
  historic letter forms that share its capital (\<^verbatim>\<open>0x1C80\<close> to \<^verbatim>\<open>0x1C86\<close>).
\<close>

definition ignorecase_fixes :: "nat \<Rightarrow> nat list" where
  "ignorecase_fixes c = (if c = 0x432 then [0x1C80] else if c = 0x434 then [0x1C81]
       else if c = 0x43E then [0x1C82] else if c = 0x441 then [0x1C83]
       else if c = 0x442 then [0x1C84, 0x1C85] else if c = 0x44A then [0x1C86] else [])"

definition ch_eq :: "bool \<Rightarrow> nat \<Rightarrow> nat \<Rightarrow> bool" where
  "ch_eq ic p c = (if ic then to_lower c = to_lower p \<or> to_lower c \<in> set (ignorecase_fixes (to_lower p))
       else c = p)"

definition strip :: "ustring \<Rightarrow> ustring" where
  "strip s = rev (dropWhile is_space (rev (dropWhile is_space s)))"

text \<open>\<^verbatim>\<open>w in s\<close> on strings: \<open>w\<close> occurs in \<open>s\<close> as a substring.\<close>

fun starts_with :: "ustring \<Rightarrow> ustring \<Rightarrow> bool" where
  "starts_with [] s = True"
| "starts_with (p # ps) [] = False"
| "starts_with (p # ps) (c # cs) = (p = c \<and> starts_with ps cs)"

fun isin :: "ustring \<Rightarrow> ustring \<Rightarrow> bool" where
  "isin w [] = (w = [])"
| "isin w (c # cs) = (starts_with w (c # cs) \<or> isin w cs)"

text \<open>
  \<^verbatim>\<open>int(g)\<close> for a group \<open>g\<close> that a run of \<^verbatim>\<open>\d\<close> has matched.  CPython refuses a
  digit string of more than 4300 characters with a \<^verbatim>\<open>ValueError\<close>.
\<close>

definition digit_val :: "nat \<Rightarrow> int" where
  "digit_val c = (case digit_value c of None \<Rightarrow> 0 | Some v \<Rightarrow> int v)"

definition int_of_digits :: "ustring \<Rightarrow> int" where
  "int_of_digits ds = foldl (\<lambda>a c. 10 * a + digit_val c) 0 ds"

definition py_int :: "ustring \<Rightarrow> py_error + int" where
  "py_int ds = (if ds = [] \<or> \<not> list_all is_digit ds \<or> 4300 < length ds then Inl ValueError
       else Inr (int_of_digits ds))"

section \<open>Regular expressions\<close>

text \<open>
  The fragment of \<^verbatim>\<open>re\<close> that the spiders use: a pattern is a sequence of nodes, a node
  is a repetition of a character set (\<^verbatim>\<open>\d{1,2}\<close>, \<^verbatim>\<open>\s+\<close>, \<^verbatim>\<open>[...]+\<close>), a literal
  or an alternative of literals, and a node may be a capturing group.
\<close>

datatype citem = Single nat | Range nat nat

datatype cset = Digit | Space | Chars "citem list"

datatype atom = Rep cset nat "nat option" | Lit ustring | Alt "ustring list"

datatype node = Plain atom | Group atom

type_synonym pattern = "node list"

fun atom_of :: "node \<Rightarrow> atom" where
  "atom_of (Plain a) = a"
| "atom_of (Group a) = a"

fun is_group :: "node \<Rightarrow> bool" where
  "is_group (Plain a) = False"
| "is_group (Group a) = True"

text \<open>Compiling a pattern raises \<^verbatim>\<open>re.error\<close> on a range whose bounds are reversed.\<close>

fun citem_ok :: "citem \<Rightarrow> bool" where
  "citem_ok (Single c) = True"
| "citem_ok (Range lo hi) = (lo \<le> hi)"

fun cset_ok :: "cset \<Rightarrow> bool" where
  "cset_ok (Chars its) = list_all citem_ok its"
| "cset_ok cs = True"

fun atom_compiles :: "atom \<Rightarrow> bool" where
  "atom_compiles (Rep cs lo hi) = cset_ok cs"
| "atom_compiles a = True"

definition pattern_ok :: "pattern \<Rightarrow> bool" where
  "pattern_ok p = list_all (\<lambda>n. atom_compiles (atom_of n)) p"

fun in_citem :: "bool \<Rightarrow> citem \<Rightarrow> nat \<Rightarrow> bool" where
  "in_citem ic (Single p) c = ch_eq ic p c"
| "in_citem ic (Range lo hi) c = (if ic then list_ex (\<lambda>p. ch_eq ic p c) [lo..<Suc hi]
       else lo \<le> c \<and> c \<le> hi)"

fun in_cset :: "bool \<Rightarrow> cset \<Rightarrow> nat \<Rightarrow> bool" where
  "in_cset ic Digit c = is_digit c"
| "in_cset ic Space c = is_space c"
| "in_cset ic (Chars its) c = list_ex (\<lambda>it. in_citem ic it c) its"

text \<open>
  The lengths that an atom can match at the head of \<open>s\<close>, in the order in which the
  backtracking matcher tries them: a repetition is greedy, an alternative goes from left
  to right.
\<close>

fun down_to :: "nat \<Rightarrow> nat \<Rightarrow> nat list" where
  "down_to lo 0 = (if lo = 0 then [0] else [])"
| "down_to lo (Suc m) = (if lo \<le> Suc m then Suc m # down_to lo m else [])"

definition lit_lens :: "bool \<Rightarrow> ustring \<Rightarrow> ustring \<Rightarrow> nat list" where
  "lit_lens ic w s = (if length w \<le> length s \<and> list_all2 (ch_eq ic) w (take (length w) s)
       then [length w] else [])"

fun atom_lens :: "bool \<Rightarrow> atom \<Rightarrow> ustring \<Rightarrow> nat list" where
  "atom_lens ic (Rep cs lo hi) s =
     (let n = length (takeWhile (in_cset ic cs) s)
      in down_to lo (case hi of None \<Rightarrow> n | Some h \<Rightarrow> min n h))"
| "atom_lens ic (Lit w) s = lit_lens ic w s"
| "atom_lens ic (Alt ws) s = concat (map (\<lambda>w. lit_lens ic w s) ws)"

text \<open>
  All ways to match the nodes of a pattern at the head of \<open>s\<close>, first choice first; a
  match is the list of the substrings that the nodes have consumed.
\<close>

fun seq_matches :: "bool \<Rightarrow> pattern \<Rightarrow> ustring \<Rightarrow> ustring list list" where
  "seq_matches ic [] s = [[]]"
| "seq_matches ic (n # ns) s =
     concat (map (\<lambda>k. map ((#) (take k s)) (seq_matches ic ns (drop k s)))
                 (atom_lens ic (atom_of n) s))"

definition match_here :: "bool \<Rightarrow> pattern \<Rightarrow> ustring \<Rightarrow> ustring list option" where
  "match_here ic p s = (case seq_matches ic p s of [] \<Rightarrow> None | ms # _ \<Rightarrow> Some ms)"

text \<open>\<^verbatim>\<open>re.search\<close>: the first position, from the left, where the pattern matches.\<close>

fun search_from :: "bool \<Rightarrow> pattern \<Rightarrow> ustring \<Rightarrow> ustring list option" where
  "search_from ic p [] = match_here ic p []"
| "search_from ic p (c # cs) = (case match_here ic p (c # cs) of
       Some ms \<Rightarrow> Some ms | None \<Rightarrow> search_from ic p cs)"

definition re_search :: "bool \<Rightarrow> pattern \<Rightarrow> ustring \<Rightarrow> py_error + ustring list option" where
  "re_search ic p s = (if pattern_ok p then Inr (search_from ic p s) else Inl ReError)"

text \<open>\<^verbatim>\<open>match.groups()\<close>: the substrings of the capturing nodes.\<close>

definition groups :: "pattern \<Rightarrow> ustring list \<Rightarrow> ustring list" where
  "groups p ms = map snd (filter (\<lambda>x. is_group (fst x)) (zip p ms))"

text \<open>
  \<^verbatim>\<open>re.sub\<close> and \<^verbatim>\<open>re.findall\<close> scan from the left and continue behind each match.
\<close>

function re_sub_from :: "bool \<Rightarrow> pattern \<Rightarrow> ustring \<Rightarrow> ustring \<Rightarrow> ustring" where
  "re_sub_from ic p repl [] = (case match_here ic p [] of None \<Rightarrow> [] | Some ms \<Rightarrow> repl)"
| "re_sub_from ic p repl (c # cs) = (case match_here ic p (c # cs) of
       None \<Rightarrow> c # re_sub_from ic p repl cs
     | Some ms \<Rightarrow> (if concat ms = [] then repl @ c # re_sub_from ic p repl cs
                   else repl @ re_sub_from ic p repl (drop (length (concat ms)) (c # cs))))"
  by pat_completeness auto
termination
  by (relation "measure (\<lambda>(ic, p, repl, s). length s)") auto

function re_findall_from :: "bool \<Rightarrow> pattern \<Rightarrow> ustring \<Rightarrow> ustring list" where
  "re_findall_from ic p [] = (case match_here ic p [] of None \<Rightarrow> [] | Some ms \<Rightarrow> [concat ms])"
| "re_findall_from ic p (c # cs) = (case match_here ic p (c # cs) of
       None \<Rightarrow> re_findall_from ic p cs
     | Some ms \<Rightarrow> (if concat ms = [] then [] # re_findall_from ic p cs
                   else concat ms # re_findall_from ic p (drop (length (concat ms)) (c # cs))))"
  by pat_completeness auto
termination
  by (relation "measure (\<lambda>(ic, p, s). length s)") auto

definition re_sub :: "bool \<Rightarrow> pattern \<Rightarrow> ustring \<Rightarrow> ustring \<Rightarrow> py_error + ustring" where
  "re_sub ic p repl s = (if pattern_ok p then Inr (re_sub_from ic p repl s) else Inl ReError)"

definition re_findall :: "bool \<Rightarrow> pattern \<Rightarrow> ustring \<Rightarrow> py_error + ustring list" where
  "re_findall ic p s = (if pattern_ok p then Inr (re_findall_from ic p s) else Inl ReError)"

text \<open>
  What a match means, stated without the matcher: the strings that an atom accepts, a
  list of strings that fits the nodes of a pattern one by one, and a text that holds
  such a list somewhere inside.
\<close>

fun atom_ok :: "bool \<Rightarrow> atom \<Rightarrow> ustring \<Rightarrow> bool" where
  "atom_ok ic (Rep cs lo hi) m = (lo \<le> length m \<and> (case hi of None \<Rightarrow> True | Some h \<Rightarrow> length m \<le> h)
       \<and> list_all (in_cset ic cs) m)"
| "atom_ok ic (Lit w) m = list_all2 (ch_eq ic) w m"
| "atom_ok ic (Alt ws) m = list_ex (\<lambda>w. list_all2 (ch_eq ic) w m) ws"

definition shape :: "bool \<Rightarrow> pattern \<Rightarrow> ustring list \<Rightarrow> bool" where
  "shape ic p ms = list_all2 (\<lambda>n m. atom_ok ic (atom_of n) m) p ms"

definition contains_shape :: "bool \<Rightarrow> pattern \<Rightarrow> ustring \<Rightarrow> bool" where
  "contains_shape ic p s = (\<exists>pre ms post. s = pre @ concat ms @ post \<and> shape ic p ms)"

section \<open>Dates and times\<close>

text \<open>
  A naive \<^verbatim>\<open>datetime\<close> object.  The constructor checks the calendar; comparison is
  lexicographic on the fields; subtraction of a \<^verbatim>\<open>timedelta\<close> goes through the
  proleptic Gregorian ordinal of the day, as the library does.
\<close>

record datetime =
  year :: int
  month :: int
  day :: int
  hour :: int
  minute :: int
  second :: int
  microsecond :: int

definition is_leap :: "int \<Rightarrow> bool" where
  "is_leap y = (y mod 4 = 0 \<and> (y mod 100 \<noteq> 0 \<or> y mod 400 = 0))"

definition days_in_month :: "int \<Rightarrow> int \<Rightarrow> int" where
  "days_in_month y m = (if m = 2 then (if is_leap y then 29 else 28)
       else if m = 4 \<or> m = 6 \<or> m = 9 \<or> m = 11 then 30 else 31)"

definition valid_date :: "int \<Rightarrow> int \<Rightarrow> int \<Rightarrow> bool" where
  "valid_date y m d = (1 \<le> y \<and> y \<le> 9999 \<and> 1 \<le> m \<and> m \<le> 12 \<and> 1 \<le> d \<and> d \<le> days_in_month y m)"

definition mk_datetime :: "int \<Rightarrow> int \<Rightarrow> int \<Rightarrow> py_error + datetime" where
  "mk_datetime y m d = (if valid_date y m d
       then Inr \<lparr>year = y, month = m, day = d, hour = 0, minute = 0, second = 0, microsecond = 0\<rparr>
       else Inl ValueError)"

definition dt_key :: "datetime \<Rightarrow> int list" where
  "dt_key d = [year d, month d, day d, hour d, minute d, second d, microsecond d]"

fun lex_le :: "int list \<Rightarrow> int list \<Rightarrow> bool" where
  "lex_le [] ys = True"
| "lex_le (x # xs) [] = False"
| "lex_le (x # xs) (y # ys) = (x < y \<or> (x = y \<and> lex_le xs ys))"

definition dt_ge :: "datetime \<Rightarrow> datetime \<Rightarrow> bool" where
  "dt_ge a b = lex_le (dt_key b) (dt_key a)"

definition days_before_year :: "int \<Rightarrow> int" where
  "days_before_year y = (y - 1) * 365 + (y - 1) div 4 - (y - 1) div 100 + (y - 1) div 400"

fun days_before_month :: "int \<Rightarrow> nat \<Rightarrow> int" where
  "days_before_month y 0 = 0"
| "days_before_month y (Suc k) = (if k = 0 then 0 else days_before_month y k + days_in_month y (int k))"

definition toordinal :: "datetime \<Rightarrow> int" where
  "toordinal d = days_before_year (year d) + days_before_month (year d) (nat (month d)) + day d"

definition ord2ymd :: "int \<Rightarrow> int \<times> int \<times> int" where
  "ord2ymd n =
     (let n0 = n - 1;
          n400 = n0 div 146097; r400 = n0 mod 146097;
          n100 = r400 div 36524; r100 = r400 mod 36524;
          n4 = r100 div 1461; r4 = r100 mod 1461;
          n1 = r4 div 365; r1 = r4 mod 365;
          y = n400 * 400 + 1 + n100 * 100 + n4 * 4 + n1
      in if n1 = 4 \<or> n100 = 4 then (y - 1, 12, 31)
         else (let m = (r1 + 50) div 32;
                   preceding = days_before_month y (nat m)
               in if preceding > r1
                  then (y, m - 1, r1 - (preceding - days_in_month y (m - 1)) + 1)
                  else (y, m, r1 - preceding + 1)))"

record timedelta =
  td_days :: int
  td_seconds :: int

definition mk_timedelta :: "int \<Rightarrow> int \<Rightarrow> py_error + timedelta" where
  "mk_timedelta d s = (let d' = d + s div 86400
       in if 999999999 < \<bar>d'\<bar> then Inl OverflowError
          else Inr \<lparr>td_days = d', td_seconds = s mod 86400\<rparr>)"

definition dt_sub :: "datetime \<Rightarrow> timedelta \<Rightarrow> py_error + datetime" where
  "dt_sub d td =
     (let secs = hour d * 3600 + minute d * 60 + second d - td_seconds td;
          n = toordinal d - td_days td + secs div 86400;
          s = secs mod 86400
      in if 0 < n \<and> n \<le> 3652059
         then (case ord2ymd n of (y, m, dd) \<Rightarrow>
                 Inr \<lparr>year = y, month = m, day = dd, hour = s div 3600,
                      minute = (s mod 3600) div 60, second = s mod 60,
                      microsecond = microsecond d\<rparr>)
         else Inl OverflowError)"

text \<open>The four \<^verbatim>\<open>timedelta\<close> constructors that the relative parser calls.\<close>

definition timedelta_days :: "int \<Rightarrow> py_error + timedelta" where
  "timedelta_days n = mk_timedelta n 0"

definition timedelta_hours :: "int \<Rightarrow> py_error + timedelta" where
  "timedelta_hours n = mk_timedelta 0 (n * 3600)"

definition timedelta_minutes :: "int \<Rightarrow> py_error + timedelta" where
  "timedelta_minutes n = mk_timedelta 0 (n * 60)"

definition timedelta_weeks :: "int \<Rightarrow> py_error + timedelta" where
  "timedelta_weeks n = mk_timedelta (7 * n) 0"

section \<open>The bankinform spider: date parsing\<close>

text \<open>
  \<^verbatim>\<open>month_mapping\<close> of \<^verbatim>\<open>parse_russian_date\<close>: the genitive month names yanvarya,
  fevralya, marta, aprelya, maya, iyunya, iyulya, avgusta, sentyabrya, oktyabrya,
  noyabrya, dekabrya.
\<close>

definition month_mapping :: "(ustring \<times> int) list" where
  "month_mapping =
    [([0x44f, 0x43d, 0x432, 0x430, 0x440, 0x44f], 1),
     ([0x444, 0x435, 0x432, 0x440, 0x430, 0x43b, 0x44f], 2),
     ([0x43c, 0x430, 0x440, 0x442, 0x430], 3),
     ([0x430, 0x43f, 0x440, 0x435, 0x43b, 0x44f], 4),
     ([0x43c, 0x430, 0x44f], 5),
     ([0x438, 0x44e, 0x43d, 0x44f], 6),
     ([0x438, 0x44e, 0x43b, 0x44f], 7),
     ([0x430, 0x432, 0x433, 0x443, 0x441, 0x442, 0x430], 8),
     ([0x441, 0x435, 0x43d, 0x442, 0x44f, 0x431, 0x440, 0x44f], 9),
     ([0x43e, 0x43a, 0x442, 0x44f, 0x431, 0x440, 0x44f], 10),
     ([0x43d, 0x43e, 0x44f, 0x431, 0x440, 0x44f], 11),
     ([0x434, 0x435, 0x43a, 0x430, 0x431, 0x440, 0x44f], 12)]"

text \<open>The character class of the Cyrillic small letters, \<^verbatim>\<open>[a-ya yo]\<close> in Cyrillic.\<close>

definition cyr :: cset where
  "cyr = Chars [Range 0x430 0x44F, Single 0x451]"

text \<open>\<^verbatim>\<open>(\d{1,2})\s+([a-ya yo]+)\s+(\d{4})\<close>\<close>

definition russian_pattern :: pattern where
  "russian_pattern = [Group (Rep Digit 1 (Some 2)), Plain (Rep Space 1 None),
     Group (Rep cyr 1 None), Plain (Rep Space 1 None), Group (Rep Digit 4 (Some 4))]"

text \<open>\<^verbatim>\<open>(\d{1,2})\.(\d{1,2})\.(\d{4})\<close> and \<^verbatim>\<open>(\d{4})-(\d{1,2})-(\d{1,2})\<close>\<close>

definition dot_pattern :: pattern where
  "dot_pattern = [Group (Rep Digit 1 (Some 2)), Plain (Lit [0x2E]),
     Group (Rep Digit 1 (Some 2)), Plain (Lit [0x2E]), Group (Rep Digit 4 (Some 4))]"

definition iso_pattern :: pattern where
  "iso_pattern = [Group (Rep Digit 4 (Some 4)), Plain (Lit [0x2D]),
     Group (Rep Digit 1 (Some 2)), Plain (Lit [0x2D]), Group (Rep Digit 1 (Some 2))]"

text \<open>
  The body of the \<^verbatim>\<open>try\<close> block of \<^verbatim>\<open>parse_russian_date\<close>, then the function with
  its \<^verbatim>\<open>except Exception\<close> handler.
\<close>

definition parse_russian_date_body :: "ustring \<Rightarrow> py_error + datetime option" where
  "parse_russian_date_body date_str =
     bnd (re_search False russian_pattern date_str) (\<lambda>match.
       case match of
         None \<Rightarrow> Inr None
       | Some m \<Rightarrow>
          (case groups russian_pattern m of
             [g1, g2, g3] \<Rightarrow>
               bnd (py_int g1) (\<lambda>day.
               let month_ru = lower g2 in
               bnd (py_int g3) (\<lambda>year.
                 case map_of month_mapping month_ru of
                   Some mon \<Rightarrow> bnd (mk_datetime year mon day) (\<lambda>d. Inr (Some d))
                 | None \<Rightarrow> Inr None))
           | _ \<Rightarrow> Inl IndexError))"

definition parse_russian_date :: "ustring \<Rightarrow> datetime option" where
  "parse_russian_date date_str = except_none (parse_russian_date_body date_str)"

text \<open>\<^verbatim>\<open>parse_standard_date\<close>: \<^verbatim>\<open>DD.MM.YYYY\<close> first, then \<^verbatim>\<open>YYYY-MM-DD\<close>.\<close>

definition parse_standard_date_body :: "ustring \<Rightarrow> py_error + datetime option" where
  "parse_standard_date_body date_str =
     bnd (re_search False dot_pattern date_str) (\<lambda>match1.
       case match1 of
         Some m \<Rightarrow>
          (case groups dot_pattern m of
             [g1, g2, g3] \<Rightarrow>
               bnd (py_int g1) (\<lambda>day. bnd (py_int g2) (\<lambda>mon. bnd (py_int g3) (\<lambda>year.
               bnd (mk_datetime year mon day) (\<lambda>d. Inr (Some d)))))
           | _ \<Rightarrow> Inl IndexError)
       | None \<Rightarrow>
          bnd (re_search False iso_pattern date_str) (\<lambda>match2.
            case match2 of
              Some m \<Rightarrow>
               (case groups iso_pattern m of
                  [g1, g2, g3] \<Rightarrow>
                    bnd (py_int g1) (\<lambda>year. bnd (py_int g2) (\<lambda>mon. bnd (py_int g3) (\<lambda>day.
                    bnd (mk_datetime year mon day) (\<lambda>d. Inr (Some d)))))
                | _ \<Rightarrow> Inl IndexError)
            | None \<Rightarrow> Inr None))"

definition parse_standard_date :: "ustring \<Rightarrow> datetime option" where
  "parse_standard_date date_str = except_none (parse_standard_date_body date_str)"

text \<open>
  \<^verbatim>\<open>parse_relative_date\<close>.  The stems are den', dnya, dney (days), chas, chasa, chasov
  (hours), minut (minutes) and nedel (weeks).  \<open>now\<close> is the reading of the clock
  that \<^verbatim>\<open>datetime.now()\<close> returns in the branch taken.
\<close>

definition stem_den :: ustring where "stem_den = [0x434, 0x435, 0x43d, 0x44c]"
definition stem_dnya :: ustring where "stem_dnya = [0x434, 0x43d, 0x44f]"
definition stem_dney :: ustring where "stem_dney = [0x434, 0x43d, 0x435, 0x439]"
definition stem_chas :: ustring where "stem_chas = [0x447, 0x430, 0x441]"
definition stem_chasa :: ustring where "stem_chasa = [0x447, 0x430, 0x441, 0x430]"
definition stem_chasov :: ustring where "stem_chasov = [0x447, 0x430, 0x441, 0x43e, 0x432]"
definition stem_minut :: ustring where "stem_minut = [0x43c, 0x438, 0x43d, 0x443, 0x442]"
definition stem_nedel :: ustring where "stem_nedel = [0x43d, 0x435, 0x434, 0x435, 0x43b]"

definition number_pattern :: pattern where
  "number_pattern = [Plain (Rep Digit 1 None)]"

definition parse_relative_date_body :: "datetime \<Rightarrow> ustring \<Rightarrow> py_error + datetime option" where
  "parse_relative_date_body now date_str =
     bnd (re_findall False number_pattern date_str) (\<lambda>numbers.
       case numbers of
         [] \<Rightarrow> Inr None
       | n0 # _ \<Rightarrow>
          bnd (py_int n0) (\<lambda>amount.
            if isin stem_den date_str \<or> isin stem_dnya date_str \<or> isin stem_dney date_str
            then bnd (timedelta_days amount) (\<lambda>td. bnd (dt_sub now td) (\<lambda>d. Inr (Some d)))
            else if isin stem_chas date_str \<or> isin stem_chasa date_str \<or> isin stem_chasov date_str
            then bnd (timedelta_hours amount) (\<lambda>td. bnd (dt_sub now td) (\<lambda>d. Inr (Some d)))
            else if isin stem_minut date_str
            then bnd (timedelta_minutes amount) (\<lambda>td. bnd (dt_sub now td) (\<lambda>d. Inr (Some d)))
            else if isin stem_nedel date_str
            then bnd (timedelta_weeks amount) (\<lambda>td. bnd (dt_sub now td) (\<lambda>d. Inr (Some d)))
            else Inr None))"

definition parse_relative_date :: "datetime \<Rightarrow> ustring \<Rightarrow> datetime option" where
  "parse_relative_date now date_str = except_none (parse_relative_date_body now date_str)"

text \<open>
  \<^verbatim>\<open>clean_date_text\<close>: no \<^verbatim>\<open>try\<close> block here, so an error of \<^verbatim>\<open>re\<close> would leave
  the function.  The icons are the alarm clock, the clock face and the calendar.
\<close>

definition icon_pattern :: pattern where
  "icon_pattern = [Plain (Rep (Chars [Single 0x23F0, Single 0x1F552, Single 0x1F4C5]) 1 (Some 1))]"

definition ws_pattern :: pattern where
  "ws_pattern = [Plain (Rep Space 1 None)]"

text \<open>
  The six entries of \<^verbatim>\<open>date_patterns\<close>: day, Cyrillic word and year; \<^verbatim>\<open>D.M.YYYY\<close>;
  \<^verbatim>\<open>D/M/YYYY\<close>; \<^verbatim>\<open>YYYY-M-D\<close>; day and Cyrillic word; a number and one of the stems
  chas, den', dnya, dney, minut, nedel.
\<close>

definition word_date_pattern :: pattern where
  "word_date_pattern = [Plain (Rep Digit 1 (Some 2)), Plain (Rep Space 1 None),
     Plain (Rep cyr 1 None), Plain (Rep Space 1 None), Plain (Rep Digit 4 (Some 4))]"

definition dot_date_pattern :: pattern where
  "dot_date_pattern = [Plain (Rep Digit 1 (Some 2)), Plain (Lit [0x2E]),
     Plain (Rep Digit 1 (Some 2)), Plain (Lit [0x2E]), Plain (Rep Digit 4 (Some 4))]"

definition slash_pattern :: pattern where
  "slash_pattern = [Plain (Rep Digit 1 (Some 2)), Plain (Lit [0x2F]),
     Plain (Rep Digit 1 (Some 2)), Plain (Lit [0x2F]), Plain (Rep Digit 4 (Some 4))]"

definition iso_date_pattern :: pattern where
  "iso_date_pattern = [Plain (Rep Digit 4 (Some 4)), Plain (Lit [0x2D]),
     Plain (Rep Digit 1 (Some 2)), Plain (Lit [0x2D]), Plain (Rep Digit 1 (Some 2))]"

definition day_word_pattern :: pattern where
  "day_word_pattern = [Plain (Rep Digit 1 (Some 2)), Plain (Rep Space 1 None),
     Plain (Rep cyr 1 None)]"

definition relative_pattern :: pattern where
  "relative_pattern = [Plain (Rep Digit 1 None), Plain (Rep Space 1 None),
     Group (Alt [stem_chas, stem_den, stem_dnya, stem_dney, stem_minut, stem_nedel])]"

definition date_patterns :: "pattern list" where
  "date_patterns = [word_date_pattern, dot_date_pattern, slash_pattern, iso_date_pattern,
     day_word_pattern, relative_pattern]"

text \<open>The loop over \<^verbatim>\<open>date_patterns\<close>: the text is returned at the first pattern found.\<close>

fun first_found :: "pattern list \<Rightarrow> ustring \<Rightarrow> py_error + ustring option" where
  "first_found [] t = Inr None"
| "first_found (p # ps) t = bnd (re_search True p t) (\<lambda>m.
       case m of Some _ \<Rightarrow> Inr (Some t) | None \<Rightarrow> first_found ps t)"

definition clean_date_text :: "ustring option \<Rightarrow> py_error + ustring option" where
  "clean_date_text date_text =
     (case date_text of
        None \<Rightarrow> Inr None
      | Some s \<Rightarrow>
         if s = [] then Inr None
         else bnd (re_sub False icon_pattern [] (strip s)) (\<lambda>s1.
              bnd (re_sub False ws_pattern [0x20] s1) (\<lambda>s2.
              first_found date_patterns s2)))"

text \<open>
  The text after the three textual steps of \<^verbatim>\<open>clean_date_text\<close>: \<^verbatim>\<open>strip()\<close>,
  removal of the icons, and replacement of each run of white space by one space.
\<close>

definition sanitized :: "ustring \<Rightarrow> ustring" where
  "sanitized s = re_sub_from False ws_pattern [0x20] (re_sub_from False icon_pattern [] (strip s))"

text \<open>\<^verbatim>\<open>parse_date_text\<close>: Russian month date, then relative date, then standard date.\<close>

definition parse_date_text :: "datetime \<Rightarrow> ustring option \<Rightarrow> py_error + datetime option" where
  "parse_date_text now date_text =
     (case date_text of
        None \<Rightarrow> Inr None
      | Some s \<Rightarrow>
         if s = [] then Inr None
         else bnd (clean_date_text (Some s)) (\<lambda>clean_text.
           case clean_text of
             None \<Rightarrow> Inr None
           | Some c \<Rightarrow>
              if c = [] then Inr None
              else (case parse_russian_date c of
                 Some d \<Rightarrow> Inr (Some d)
               | None \<Rightarrow>
                  (case parse_relative_date now c of
                     Some d \<Rightarrow> Inr (Some d)
                   | None \<Rightarrow>
                      (case parse_standard_date c of
                         Some d \<Rightarrow> Inr (Some d)
                       | None \<Rightarrow> Inr None)))))"

section \<open>The dispatcher as the specification words it\<close>

text \<open>
  Try the strategies in the given order and return the first success.  The dispatchers of
  the spiders are compared with this function.
\<close>

fun spec_dispatch :: "(ustring \<Rightarrow> datetime option) list \<Rightarrow> ustring \<Rightarrow> datetime option" where
  "spec_dispatch [] t = None"
| "spec_dispatch (f # fs) t = (case f t of Some d \<Rightarrow> Some d | None \<Rightarrow> spec_dispatch fs t)"

section \<open>The plusworld spider: date parsing\<close>

text \<open>
  The non-ASCII literals of \<^verbatim>\<open>plusworld.py\<close> are transcribed code point by code point
  as the file holds them; they are not the Cyrillic letters of the other spiders.  In the
  character class of the first and fourth date pattern the range runs from \<^verbatim>\<open>0x221E\<close>
  down to \<^verbatim>\<open>0x2014\<close>.  The spider has no \<^verbatim>\<open>parse_standard_date\<close>.
\<close>

definition pw_class :: cset where
  "pw_class = Chars [Single 0x2013, Range 0x221E 0x2014, Single 0xE8, Single 0x2014, Single 0xEB]"

definition pw_icon_pattern :: pattern where
  "pw_icon_pattern = [Plain (Rep (Chars [Single 0x201A, Single 0xE8, Single 0x221E, Single 0xF8FF,
      Single 0xFC, Single 0xEF, Single 0xED, Single 0xF8FF, Single 0xFC, Single 0xEC,
      Single 0xD6]) 1 (Some 1))]"

text \<open>
  The stems as the file holds them, in the order of the stems of bankinform: den', dnya,
  dney, chas, chasa, chasov, minut, nedel.
\<close>

definition pw_stem_den :: ustring where
  "pw_stem_den = [0x2013, 0xa5, 0x2013, 0xb5, 0x2013, 0x3a9, 0x2014, 0xe5]"
definition pw_stem_dnya :: ustring where
  "pw_stem_dnya = [0x2013, 0xa5, 0x2013, 0x3a9, 0x2014, 0xe8]"
definition pw_stem_dney :: ustring where
  "pw_stem_dney = [0x2013, 0xa5, 0x2013, 0x3a9, 0x2013, 0xb5, 0x2013, 0x3c0]"
definition pw_stem_chas :: ustring where
  "pw_stem_chas = [0x2014, 0xe1, 0x2013, 0x221e, 0x2014, 0xc5]"
definition pw_stem_chasa :: ustring where
  "pw_stem_chasa = [0x2014, 0xe1, 0x2013, 0x221e, 0x2014, 0xc5, 0x2013, 0x221e]"
definition pw_stem_chasov :: ustring where
  "pw_stem_chasov = [0x2014, 0xe1, 0x2013, 0x221e, 0x2014, 0xc5, 0x2013, 0xe6, 0x2013, 0x2264]"
definition pw_stem_minut :: ustring where
  "pw_stem_minut = [0x2013, 0xba, 0x2013, 0x220f, 0x2013, 0x3a9, 0x2014, 0xc9, 0x2014, 0xc7]"
definition pw_stem_nedel :: ustring where
  "pw_stem_nedel = [0x2013, 0x3a9, 0x2013, 0xb5, 0x2013, 0xa5, 0x2013, 0xb5, 0x2013, 0xaa]"

text \<open>
  The six entries of \<^verbatim>\<open>date_patterns\<close> in \<^verbatim>\<open>plusworld.py\<close>: day, a run of the class
  and year; \<^verbatim>\<open>D.M.YYYY\<close>; \<^verbatim>\<open>D/M/YYYY\<close>; day and a run of the class; a number and one
  of six stems; a number and one of the English words hour, day, days, minute, week.  The
  second and the third entry are those of bankinform; there is no \<^verbatim>\<open>YYYY-M-D\<close> entry.
\<close>

definition pw_word_date_pattern :: pattern where
  "pw_word_date_pattern = [Plain (Rep Digit 1 (Some 2)), Plain (Rep Space 1 None),
     Plain (Rep pw_class 1 None), Plain (Rep Space 1 None), Plain (Rep Digit 4 (Some 4))]"

definition pw_day_word_pattern :: pattern where
  "pw_day_word_pattern = [Plain (Rep Digit 1 (Some 2)), Plain (Rep Space 1 None),
     Plain (Rep pw_class 1 None)]"

definition pw_relative_pattern :: pattern where
  "pw_relative_pattern = [Plain (Rep Digit 1 None), Plain (Rep Space 1 None),
     Group (Alt [pw_stem_chas, pw_stem_den, pw_stem_dnya, pw_stem_dney, pw_stem_minut,
       pw_stem_nedel])]"

definition pw_english_pattern :: pattern where
  "pw_english_pattern = [Plain (Rep Digit 1 None), Plain (Rep Space 1 None),
     Group (Alt [[0x68, 0x6f, 0x75, 0x72], [0x64, 0x61, 0x79], [0x64, 0x61, 0x79, 0x73],
                 [0x6d, 0x69, 0x6e, 0x75, 0x74, 0x65], [0x77, 0x65, 0x65, 0x6b]])]"

definition pw_date_patterns :: "pattern list" where
  "pw_date_patterns = [pw_word_date_pattern, dot_date_pattern, slash_pattern,
     pw_day_word_pattern, pw_relative_pattern, pw_english_pattern]"

definition pw_clean_date_text :: "ustring option \<Rightarrow> py_error + ustring option" where
  "pw_clean_date_text date_text =
     (case date_text of
        None \<Rightarrow> Inr None
      | Some s \<Rightarrow>
         if s = [] then Inr None
         else bnd (re_sub False pw_icon_pattern [] (strip s)) (\<lambda>s1.
              bnd (re_sub False ws_pattern [0x20] s1) (\<lambda>s2.
              first_found pw_date_patterns s2)))"

definition pw_russian_pattern :: pattern where
  "pw_russian_pattern = [Group (Rep Digit 1 (Some 2)), Plain (Rep Space 1 None),
     Group (Rep pw_class 1 None), Plain (Rep Space 1 None), Group (Rep Digit 4 (Some 4))]"

definition pw_month_mapping :: "(ustring \<times> int) list" where
  "pw_month_mapping =
    [([0x2014, 0xe8, 0x2013, 0x3a9, 0x2013, 0x2264, 0x2013, 0x221e, 0x2014, 0xc4, 0x2014, 0xe8], 1),
     ([0x2014, 0xd1, 0x2013, 0xb5, 0x2013, 0x2264, 0x2014, 0xc4, 0x2013, 0x221e, 0x2013, 0xaa, 0x2014, 0xe8], 2),
     ([0x2013, 0xba, 0x2013, 0x221e, 0x2014, 0xc4, 0x2014, 0xc7, 0x2013, 0x221e], 3),
     ([0x2013, 0x221e, 0x2013, 0xf8, 0x2014, 0xc4, 0x2013, 0xb5, 0x2013, 0xaa, 0x2014, 0xe8], 4),
     ([0x2013, 0xba, 0x2013, 0x221e, 0x2014, 0xe8], 5),
     ([0x2013, 0x220f, 0x2014, 0xe9, 0x2013, 0x3a9, 0x2014, 0xe8], 6),
     ([0x2013, 0x220f, 0x2014, 0xe9, 0x2013, 0xaa, 0x2014, 0xe8], 7),
     ([0x2013, 0x221e, 0x2013, 0x2264, 0x2013, 0x2265, 0x2014, 0xc9, 0x2014, 0xc5, 0x2014, 0xc7, 0x2013, 0x221e], 8),
     ([0x2014, 0xc5, 0x2013, 0xb5, 0x2013, 0x3a9, 0x2014, 0xc7, 0x2014, 0xe8, 0x2013, 0xb1, 0x2014, 0xc4, 0x2014, 0xe8], 9),
     ([0x2013, 0xe6, 0x2013, 0x222b, 0x2014, 0xc7, 0x2014, 0xe8, 0x2013, 0xb1, 0x2014, 0xc4, 0x2014, 0xe8], 10),
     ([0x2013, 0x3a9, 0x2013, 0xe6, 0x2014, 0xe8, 0x2013, 0xb1, 0x2014, 0xc4, 0x2014, 0xe8], 11),
     ([0x2013, 0xa5, 0x2013, 0xb5, 0x2013, 0x222b, 0x2013, 0x221e, 0x2013, 0xb1, 0x2014, 0xc4, 0x2014, 0xe8], 12)]"

definition pw_parse_russian_date_body :: "ustring \<Rightarrow> py_error + datetime option" where
  "pw_parse_russian_date_body date_str =
     bnd (re_search False pw_russian_pattern date_str) (\<lambda>match.
       case match of
         None \<Rightarrow> Inr None
       | Some m \<Rightarrow>
          (case groups pw_russian_pattern m of
             [g1, g2, g3] \<Rightarrow>
               bnd (py_int g1) (\<lambda>day.
               let month_ru = lower g2 in
               bnd (py_int g3) (\<lambda>year.
                 case map_of pw_month_mapping month_ru of
                   Some mon \<Rightarrow> bnd (mk_datetime year mon day) (\<lambda>d. Inr (Some d))
                 | None \<Rightarrow> Inr None))
           | _ \<Rightarrow> Inl IndexError))"

definition pw_parse_russian_date :: "ustring \<Rightarrow> datetime option" where
  "pw_parse_russian_date date_str = except_none (pw_parse_russian_date_body date_str)"

definition pw_parse_relative_date_body :: "datetime \<Rightarrow> ustring \<Rightarrow> py_error + datetime option" where
  "pw_parse_relative_date_body now date_str =
     bnd (re_findall False number_pattern date_str) (\<lambda>numbers.
       case numbers of
         [] \<Rightarrow> Inr None
       | n0 # _ \<Rightarrow>
          bnd (py_int n0) (\<lambda>amount.
            if isin pw_stem_den date_str \<or> isin pw_stem_dnya date_str
               \<or> isin pw_stem_dney date_str
            then bnd (timedelta_days amount) (\<lambda>td. bnd (dt_sub now td) (\<lambda>d. Inr (Some d)))
            else if isin pw_stem_chas date_str \<or> isin pw_stem_chasa date_str
               \<or> isin pw_stem_chasov date_str
            then bnd (timedelta_hours amount) (\<lambda>td. bnd (dt_sub now td) (\<lambda>d. Inr (Some d)))
            else if isin pw_stem_minut date_str
            then bnd (timedelta_minutes amount) (\<lambda>td. bnd (dt_sub now td) (\<lambda>d. Inr (Some d)))
            else if isin pw_stem_nedel date_str
            then bnd (timedelta_weeks amount) (\<lambda>td. bnd (dt_sub now td) (\<lambda>d. Inr (Some d)))
            else Inr None))"

definition pw_parse_relative_date :: "datetime \<Rightarrow> ustring \<Rightarrow> datetime option" where
  "pw_parse_relative_date now date_str = except_none (pw_parse_relative_date_body now date_str)"

text \<open>
  \<^verbatim>\<open>parse_date_text\<close> of plusworld calls three methods of the spider:
  \<^verbatim>\<open>self.clean_date_text\<close>, \<^verbatim>\<open>self.parse_russian_date\<close> and
  \<^verbatim>\<open>self.parse_relative_date\<close>.  \<open>pw_parse_date_text_with\<close> is the body of the
  function with the three methods as parameters, and \<open>pw_parse_date_text\<close> is the function
  with the methods of the spider.
\<close>

definition pw_parse_date_text_with ::
  "(ustring option \<Rightarrow> py_error + ustring option) \<Rightarrow> (ustring \<Rightarrow> datetime option)
     \<Rightarrow> (ustring \<Rightarrow> datetime option) \<Rightarrow> ustring option \<Rightarrow> py_error + datetime option" where
  "pw_parse_date_text_with clean_date_text_m parse_russian_date_m parse_relative_date_m date_text =
     (case date_text of
        None \<Rightarrow> Inr None
      | Some s \<Rightarrow>
         if s = [] then Inr None
         else bnd (clean_date_text_m (Some s)) (\<lambda>clean_text.
           case clean_text of
             None \<Rightarrow> Inr None
           | Some c \<Rightarrow>
              if c = [] then Inr None
              else (case parse_russian_date_m c of
                 Some d \<Rightarrow> Inr (Some d)
               | None \<Rightarrow>
                  (case parse_relative_date_m c of
                     Some d \<Rightarrow> Inr (Some d)
                   | None \<Rightarrow> Inr None))))"

definition pw_parse_date_text :: "datetime \<Rightarrow> ustring option \<Rightarrow> py_error + datetime option" where
  "pw_parse_date_text now date_text =
     pw_parse_date_text_with pw_clean_date_text pw_parse_russian_date
       (pw_parse_relative_date now) date_text"

section \<open>The listing handlers\<close>

text \<open>
  What the page extraction found for one article of a listing page, and the request
  that a handler yields for it (URL, then the title, date and search term of its meta).
  The condition \<open>is_recent\<close> is the test of the loops of bankinform and plusworld:
  \<^verbatim>\<open>date is None or date >= self.date_threshold\<close>.
\<close>

record article_data =
  art_url :: ustring
  art_title :: ustring
  art_date :: "datetime option"

datatype request = Request ustring ustring "datetime option" "ustring option"

definition is_recent :: "datetime option \<Rightarrow> datetime \<Rightarrow> bool" where
  "is_recent parsed threshold = (case parsed of None \<Rightarrow> True | Some d \<Rightarrow> dt_ge d threshold)"

text \<open>\<^verbatim>\<open>self.date_threshold\<close>, computed once in \<^verbatim>\<open>__init__\<close>.\<close>

definition date_threshold :: "datetime \<Rightarrow> py_error + datetime" where
  "date_threshold now = bnd (timedelta_days 30) (\<lambda>td. dt_sub now td)"

fun follow_articles :: "datetime \<Rightarrow> ustring option \<Rightarrow> article_data list \<Rightarrow> request list" where
  "follow_articles thr st [] = []"
| "follow_articles thr st (a # as) =
     (if is_recent (art_date a) thr
      then Request (art_url a) (art_title a) (art_date a) st # follow_articles thr st as
      else follow_articles thr st as)"

text \<open>bankinform, \<^verbatim>\<open>parse_article_list\<close>: the requests for the articles of the page.\<close>

definition parse_article_list :: "datetime \<Rightarrow> article_data list \<Rightarrow> request list" where
  "parse_article_list thr articles_data = follow_articles thr None articles_data"

text \<open>
  plusworld, \<^verbatim>\<open>parse_article_list\<close>: the first seven articles of page 1 are skipped
  when there are more than seven, and at most fifteen are looked at.
\<close>

definition pw_parse_article_list :: "datetime \<Rightarrow> nat \<Rightarrow> ustring \<Rightarrow> article_data list \<Rightarrow> request list" where
  "pw_parse_article_list thr page search_term articles_data =
     (let articles = (if page = 1 \<and> 7 < length articles_data then drop 7 articles_data
                      else articles_data)
      in follow_articles thr (Some search_term) (take 15 articles))"

text \<open>
  rb, \<^verbatim>\<open>parse_search_results\<close>.  An item of the result page gives the text of its date
  element and the link that the two selectors find; \<open>clean_url\<close> is the spider's URL
  normalisation, which is not modelled.  An item enters \<open>article_links\<close> only with a
  parsed date that is not older than the threshold; when no item does, every title link
  of the page is taken.
\<close>

record rb_item =
  item_date :: "ustring option"
  item_link :: "ustring option"

definition rb_article_date :: "ustring \<Rightarrow> datetime option" where
  "rb_article_date date_element = parse_russian_date (strip date_element)"

definition add_link :: "(ustring \<Rightarrow> ustring option) \<Rightarrow> ustring option \<Rightarrow> ustring list \<Rightarrow> ustring list" where
  "add_link clean_url href article_links =
     (case href of
        None \<Rightarrow> article_links
      | Some l \<Rightarrow>
         if l = [] then article_links
         else (case clean_url l of
                 None \<Rightarrow> article_links
               | Some full_url \<Rightarrow>
                  if full_url \<noteq> [] \<and> full_url \<notin> set article_links
                  then article_links @ [full_url] else article_links))"

fun rb_dated_links :: "(ustring \<Rightarrow> ustring option) \<Rightarrow> datetime \<Rightarrow> rb_item list \<Rightarrow> ustring list \<Rightarrow> ustring list" where
  "rb_dated_links clean_url thr [] article_links = article_links"
| "rb_dated_links clean_url thr (item # items) article_links =
     rb_dated_links clean_url thr items
       (case item_date item of
          None \<Rightarrow> article_links
        | Some de \<Rightarrow>
           if de = [] then article_links
           else (case rb_article_date de of
                   None \<Rightarrow> article_links
                 | Some article_date \<Rightarrow>
                    if dt_ge article_date thr then add_link clean_url (item_link item) article_links
                    else article_links))"

fun rb_all_links :: "(ustring \<Rightarrow> ustring option) \<Rightarrow> ustring option list \<Rightarrow> ustring list \<Rightarrow> ustring list" where
  "rb_all_links clean_url [] article_links = article_links"
| "rb_all_links clean_url (href # hrefs) article_links =
     rb_all_links clean_url hrefs (add_link clean_url href article_links)"

definition rb_parse_search_results ::
  "(ustring \<Rightarrow> ustring option) \<Rightarrow> datetime \<Rightarrow> ustring \<Rightarrow> rb_item list \<Rightarrow> ustring option list \<Rightarrow> request list" where
  "rb_parse_search_results clean_url thr search_term items title_links =
     (let dated = rb_dated_links clean_url thr items [];
          article_links = (if dated = [] then rb_all_links clean_url title_links [] else dated)
      in map (\<lambda>u. Request u [] None (Some search_term)) (take 15 article_links))"

section \<open>The emitted records\<close>

text \<open>
  A record is a Python dict with string keys, kept as the list of its entries in the
  order of the source.  \<open>isoformat\<close> is \<^verbatim>\<open>datetime.isoformat()\<close>.
\<close>

datatype pyval = PStr ustring | PNone

definition pad :: "nat \<Rightarrow> int \<Rightarrow> ustring" where
  "pad w n = map (\<lambda>i. 48 + (nat n div 10 ^ i) mod 10) (rev [0..<w])"

definition isoformat :: "datetime \<Rightarrow> ustring" where
  "isoformat d = pad 4 (year d) @ [0x2D] @ pad 2 (month d) @ [0x2D] @ pad 2 (day d) @ [0x54]
     @ pad 2 (hour d) @ [0x3A] @ pad 2 (minute d) @ [0x3A] @ pad 2 (second d)
     @ (if microsecond d = 0 then [] else 0x2E # pad 6 (microsecond d))"

definition iso_or_none :: "datetime option \<Rightarrow> pyval" where
  "iso_or_none article_date = (case article_date of Some d \<Rightarrow> PStr (isoformat d) | None \<Rightarrow> PNone)"

text \<open>bankinform, \<^verbatim>\<open>parse_article\<close>; the search term is the text bankinform-fintech.\<close>

definition parse_article :: "ustring \<Rightarrow> ustring \<Rightarrow> ustring \<Rightarrow> datetime option \<Rightarrow> datetime \<Rightarrow> (string \<times> pyval) list" where
  "parse_article title url description article_date now =
     [(''title'', PStr title), (''url'', PStr url),
      (''search_term'', PStr [0x62, 0x61, 0x6e, 0x6b, 0x69, 0x6e, 0x66, 0x6f, 0x72, 0x6d, 0x2d,
                              0x66, 0x69, 0x6e, 0x74, 0x65, 0x63, 0x68]),
      (''description'', PStr description),
      (''article_date'', iso_or_none article_date),
      (''scraped_at'', PStr (isoformat now))]"

text \<open>plusworld, \<^verbatim>\<open>parse_article\<close>.\<close>

definition pw_parse_article :: "ustring \<Rightarrow> ustring \<Rightarrow> ustring \<Rightarrow> ustring \<Rightarrow> datetime option \<Rightarrow> datetime \<Rightarrow> (string \<times> pyval) list" where
  "pw_parse_article title url search_term description article_date now =
     [(''title'', PStr title), (''url'', PStr url), (''search_term'', PStr search_term),
      (''description'', PStr description),
      (''article_date'', iso_or_none article_date),
      (''scraped_at'', PStr (isoformat now))]"

text \<open>rb, \<^verbatim>\<open>parse_article\<close>: the date is parsed from the article page; no \<^verbatim>\<open>scraped_at\<close>.\<close>

definition rb_parse_article :: "ustring \<Rightarrow> ustring \<Rightarrow> ustring \<Rightarrow> ustring \<Rightarrow> ustring option \<Rightarrow> (string \<times> pyval) list" where
  "rb_parse_article title url search_term description date_elem =
     (let article_date = (case date_elem of None \<Rightarrow> None
                          | Some de \<Rightarrow> if de = [] then None else rb_article_date de)
      in [(''title'', PStr title), (''url'', PStr url), (''search_term'', PStr search_term),
          (''description'', PStr description),
          (''article_date'', iso_or_none article_date)])"

text \<open>bankcnews, \<^verbatim>\<open>parse_article\<close>, and mckinsey, \<^verbatim>\<open>parse\<close>.\<close>

definition cnews_parse_article :: "ustring \<Rightarrow> ustring \<Rightarrow> ustring \<Rightarrow> ustring \<Rightarrow> (string \<times> pyval) list" where
  "cnews_parse_article title url search_term description =
     [(''title'', PStr title), (''url'', PStr url), (''search_term'', PStr search_term),
      (''description'', PStr description)]"

definition mckinsey_parse :: "ustring \<Rightarrow> ustring \<Rightarrow> ustring \<Rightarrow> (string \<times> pyval) list" where
  "mckinsey_parse title url description =
     [(''title'', PStr (strip title)), (''url'', PStr url), (''description'', PStr (strip description))]"

definition six_fields :: "string list" where
  "six_fields = [''title'', ''url'', ''search_term'', ''description'', ''article_date'', ''scraped_at'']"


section \<open>The first integer of a text and relative dates\<close>

text \<open>
  The first integer that appears in a text, as the specification words it: the first
  maximal run of digits.  \<open>minus_units now unit n\<close> is \<^verbatim>\<open>now - timedelta(unit=n)\<close>,
  with no date when the library raises \<^verbatim>\<open>OverflowError\<close>.
\<close>

definition first_integer :: "ustring \<Rightarrow> ustring" where
  "first_integer s = takeWhile is_digit (dropWhile (\<lambda>c. \<not> is_digit c) s)"

definition minus_units :: "datetime \<Rightarrow> (int \<Rightarrow> py_error + timedelta) \<Rightarrow> int \<Rightarrow> datetime option" where
  "minus_units now unit n = except_none (bnd (unit n) (\<lambda>td. bnd (dt_sub now td) (\<lambda>d. Inr (Some d))))"

section \<open>The shapes as the specification words them\<close>

text \<open>
  The specification names the word after the day a Cyrillic month name.  These are the
  first and the fifth shape with the word restricted to the twelve names of
  \<open>month_mapping\<close>, and the list of six shapes read in this way.
\<close>

definition month_names :: "ustring list" where
  "month_names = map fst month_mapping"

definition month_date_pattern :: pattern where
  "month_date_pattern = [Plain (Rep Digit 1 (Some 2)), Plain (Rep Space 1 None),
     Plain (Alt month_names), Plain (Rep Space 1 None), Plain (Rep Digit 4 (Some 4))]"

definition day_month_pattern :: pattern where
  "day_month_pattern = [Plain (Rep Digit 1 (Some 2)), Plain (Rep Space 1 None),
     Plain (Alt month_names)]"

definition claimed_date_patterns :: "pattern list" where
  "claimed_date_patterns = [month_date_pattern, dot_date_pattern, slash_pattern,
     iso_date_pattern, day_month_pattern, relative_pattern]"

section \<open>Example texts\<close>

text \<open>
  The texts, dates and page items of the examples below.  In the order of the
  definitions the texts read: "27 oktyabrya 2025", "27 kotov 2025" (27 cats 2025),
  "31 fevralya 2025", "31.02.2025", "2025-02-31", "5 dney nazad" (5 days ago), "nazad"
  (ago), "3 chasa 1 den'" (3 hours 1 day), "Podpishites' na rassylku" (subscribe to the
  newsletter), an alarm clock icon followed by " 27 oktyabrya 2025", that text without
  the icon, "31 fevralya 2025 01.03.2025", "9999999999 dney 01.03.2025", "27/10/2025",
  "5 dney 27.10.2025", "5 kotov" (five cats), "vchera" (yesterday) and
  "2025-10-27T00:00:00".  \<open>days_ago_suffix\<close> is " dney nazad".
\<close>

definition text_27_oktyabrya :: ustring where
  "text_27_oktyabrya =
     [0x32, 0x37, 0x20, 0x43e, 0x43a, 0x442, 0x44f, 0x431, 0x440, 0x44f, 0x20, 0x32, 0x30,
     0x32, 0x35]"

definition text_27_kotov :: ustring where
  "text_27_kotov =
     [0x32, 0x37, 0x20, 0x43a, 0x43e, 0x442, 0x43e, 0x432, 0x20, 0x32, 0x30, 0x32, 0x35]"

definition text_31_fevralya :: ustring where
  "text_31_fevralya =
     [0x33, 0x31, 0x20, 0x444, 0x435, 0x432, 0x440, 0x430, 0x43b, 0x44f, 0x20, 0x32, 0x30,
     0x32, 0x35]"

definition text_31_02_dots :: ustring where
  "text_31_02_dots =
     [0x33, 0x31, 0x2e, 0x30, 0x32, 0x2e, 0x32, 0x30, 0x32, 0x35]"

definition text_2025_02_31 :: ustring where
  "text_2025_02_31 =
     [0x32, 0x30, 0x32, 0x35, 0x2d, 0x30, 0x32, 0x2d, 0x33, 0x31]"

definition text_5_days_ago :: ustring where
  "text_5_days_ago =
     [0x35, 0x20, 0x434, 0x43d, 0x435, 0x439, 0x20, 0x43d, 0x430, 0x437, 0x430, 0x434]"

definition text_ago :: ustring where
  "text_ago =
     [0x43d, 0x430, 0x437, 0x430, 0x434]"

definition text_hours_and_day :: ustring where
  "text_hours_and_day =
     [0x33, 0x20, 0x447, 0x430, 0x441, 0x430, 0x20, 0x31, 0x20, 0x434, 0x435, 0x43d, 0x44c]"

definition text_prose :: ustring where
  "text_prose =
     [0x41f, 0x43e, 0x434, 0x43f, 0x438, 0x448, 0x438, 0x442, 0x435, 0x441, 0x44c, 0x20,
     0x43d, 0x430, 0x20, 0x440, 0x430, 0x441, 0x441, 0x44b, 0x43b, 0x43a, 0x443]"

definition text_icon_date :: ustring where
  "text_icon_date =
     [0x23f0, 0x20, 0x32, 0x37, 0x20, 0x43e, 0x43a, 0x442, 0x44f, 0x431, 0x440, 0x44f, 0x20,
     0x32, 0x30, 0x32, 0x35]"

definition text_space_date :: ustring where
  "text_space_date =
     [0x20, 0x32, 0x37, 0x20, 0x43e, 0x43a, 0x442, 0x44f, 0x431, 0x440, 0x44f, 0x20, 0x32,
     0x30, 0x32, 0x35]"

definition text_invalid_then_dot :: ustring where
  "text_invalid_then_dot =
     [0x33, 0x31, 0x20, 0x444, 0x435, 0x432, 0x440, 0x430, 0x43b, 0x44f, 0x20, 0x32, 0x30,
     0x32, 0x35, 0x20, 0x30, 0x31, 0x2e, 0x30, 0x33, 0x2e, 0x32, 0x30, 0x32, 0x35]"

definition text_overflow_then_dot :: ustring where
  "text_overflow_then_dot =
     [0x39, 0x39, 0x39, 0x39, 0x39, 0x39, 0x39, 0x39, 0x39, 0x39, 0x20, 0x434, 0x43d, 0x435,
     0x439, 0x20, 0x30, 0x31, 0x2e, 0x30, 0x33, 0x2e, 0x32, 0x30, 0x32, 0x35]"

definition text_slash :: ustring where
  "text_slash =
     [0x32, 0x37, 0x2f, 0x31, 0x30, 0x2f, 0x32, 0x30, 0x32, 0x35]"

definition text_days_then_dot :: ustring where
  "text_days_then_dot =
     [0x35, 0x20, 0x434, 0x43d, 0x435, 0x439, 0x20, 0x32, 0x37, 0x2e, 0x31, 0x30, 0x2e,
     0x32, 0x30, 0x32, 0x35]"

definition text_five_cats :: ustring where
  "text_five_cats =
     [0x35, 0x20, 0x43a, 0x43e, 0x442, 0x43e, 0x432]"

definition text_yesterday :: ustring where
  "text_yesterday =
     [0x432, 0x447, 0x435, 0x440, 0x430]"

definition text_iso_27_oktyabrya :: ustring where
  "text_iso_27_oktyabrya =
     [0x32, 0x30, 0x32, 0x35, 0x2d, 0x31, 0x30, 0x2d, 0x32, 0x37, 0x54, 0x30, 0x30, 0x3a,
     0x30, 0x30, 0x3a, 0x30, 0x30]"

text \<open>
  "5 dney" with the word as \<^verbatim>\<open>plusworld.py\<close> spells it, and "3 days ago".
\<close>

definition text_pw_5_days :: ustring where
  "text_pw_5_days =
     [0x35, 0x20, 0x2013, 0xa5, 0x2013, 0x3a9, 0x2013, 0xb5, 0x2013, 0x3c0]"

definition text_3_days_ago :: ustring where
  "text_3_days_ago =
     [0x33, 0x20, 0x64, 0x61, 0x79, 0x73, 0x20, 0x61, 0x67, 0x6f]"

definition days_ago_suffix :: ustring where
  "days_ago_suffix =
     [0x20, 0x434, 0x43d, 0x435, 0x439, 0x20, 0x43d, 0x430, 0x437, 0x430, 0x434]"

text \<open>A reading of the clock, and the dates that the examples compute.\<close>

definition clock :: datetime where
  "clock = \<lparr>year = 2025, month = 11, day = 5, hour = 12, minute = 30, second = 15,
     microsecond = 7\<rparr>"

definition clock_minus_3_days :: datetime where
  "clock_minus_3_days = \<lparr>year = 2025, month = 11, day = 2, hour = 12, minute = 30,
     second = 15, microsecond = 7\<rparr>"

definition clock_minus_5_days :: datetime where
  "clock_minus_5_days = \<lparr>year = 2025, month = 10, day = 31, hour = 12, minute = 30,
     second = 15, microsecond = 7\<rparr>"

definition threshold_example :: datetime where
  "threshold_example = \<lparr>year = 2025, month = 10, day = 6, hour = 12, minute = 30,
     second = 15, microsecond = 7\<rparr>"

definition date_27_oktyabrya :: datetime where
  "date_27_oktyabrya = \<lparr>year = 2025, month = 10, day = 27, hour = 0, minute = 0,
     second = 0, microsecond = 0\<rparr>"

definition date_1_marta :: datetime where
  "date_1_marta = \<lparr>year = 2025, month = 3, day = 1, hour = 0, minute = 0,
     second = 0, microsecond = 0\<rparr>"

text \<open>
  Two items of an rb result page: the first is dated 27 oktyabrya 2025, the date text of
  the second is vchera (yesterday), which the parser does not know.
\<close>

definition rb_items_example :: "rb_item list" where
  "rb_items_example =
     [\<lparr>item_date = Some text_27_oktyabrya, item_link = Some [0x61]\<rparr>,
      \<lparr>item_date = Some text_yesterday, item_link = Some [0x62]\<rparr>]"

section \<open>Properties of characters and patterns\<close>

lemma is_digit_iff: "is_digit c \<longleftrightarrow> (\<exists>z\<in>set nd_zeros. z \<le> c \<and> c < z + 10)"
proof -
  have "digit_value c = None \<longleftrightarrow> find (\<lambda>z. z \<le> c \<and> c < z + 10) nd_zeros = None"
    by (simp add: digit_value_def split: option.splits)
  then have "digit_value c = None \<longleftrightarrow> \<not> (\<exists>z\<in>set nd_zeros. z \<le> c \<and> c < z + 10)"
    unfolding find_None_iff by blast
  then show ?thesis
    by (simp add: is_digit_def)
qed

lemma digit_range:
  "is_digit c \<Longrightarrow> (48 \<le> c \<and> c < 58) \<or> (1632 \<le> c \<and> c < 4250) \<or> (6112 \<le> c \<and> c < 7258) \<or> 42528 \<le> c"
  unfolding is_digit_iff nd_zeros_def by auto

lemma is_digit_small: "c < 1632 \<Longrightarrow> is_digit c = (48 \<le> c \<and> c < 58)"
proof
  assume "c < 1632" "is_digit c"
  then show "48 \<le> c \<and> c < 58" using digit_range [of c] by arith
next
  assume "48 \<le> c \<and> c < 58"
  then show "is_digit c" unfolding is_digit_iff nd_zeros_def by simp
qed

lemma space_range: "is_space c \<Longrightarrow> c \<le> 32 \<or> c = 133 \<or> c = 160 \<or> c = 5760 \<or> (8192 \<le> c \<and> c \<le> 12288)"
  unfolding is_space_def by arith

lemma space_not_digit: "is_space c \<Longrightarrow> \<not> is_digit c"
  using space_range [of c] digit_range [of c] by arith

lemma digit_not_space: "is_digit c \<Longrightarrow> \<not> is_space c"
  using space_not_digit by blast

lemma digit_val_ascii: "48 \<le> c \<Longrightarrow> c < 58 \<Longrightarrow> digit_val c = int c - 48"
  by (simp add: digit_val_def digit_value_def nd_zeros_def)

lemma in_cyr: "in_cset False cyr c \<longleftrightarrow> (0x430 \<le> c \<and> c \<le> 0x44F) \<or> c = 0x451"
  by (auto simp: cyr_def ch_eq_def)

lemma cyr_not_space: "in_cset False cyr c \<Longrightarrow> \<not> is_space c"
  unfolding in_cyr is_space_def by arith

lemma cyr_not_digit: "in_cset False cyr c \<Longrightarrow> \<not> is_digit c"
  using digit_range [of c] unfolding in_cyr by arith

lemma cyr_lower: "in_cset False cyr c \<Longrightarrow> to_lower c = c"
  unfolding in_cyr to_lower_def by auto

lemma down_to_iff: "k \<in> set (down_to lo m) \<longleftrightarrow> lo \<le> k \<and> k \<le> m"
  by (induction m) auto

lemma takeWhile_len: "k \<le> length (takeWhile P s) \<longleftrightarrow> k \<le> length s \<and> list_all P (take k s)"
proof (induction s arbitrary: k)
  case Nil
  then show ?case by simp
next
  case (Cons c cs)
  then show ?case by (cases k) auto
qed

lemma lit_lens_iff:
  "k \<in> set (lit_lens ic w s) \<longleftrightarrow> k \<le> length s \<and> list_all2 (ch_eq ic) w (take k s)"
proof
  assume "k \<in> set (lit_lens ic w s)"
  then show "k \<le> length s \<and> list_all2 (ch_eq ic) w (take k s)"
    by (simp add: lit_lens_def split: if_splits)
next
  assume a: "k \<le> length s \<and> list_all2 (ch_eq ic) w (take k s)"
  then have "list_all2 (ch_eq ic) w (take k s)" by simp
  then have "length w = length (take k s)" by (rule list_all2_lengthD)
  also have "\<dots> = k" using a by simp
  finally have "length w = k" .
  with a show "k \<in> set (lit_lens ic w s)" by (simp add: lit_lens_def)
qed

lemma atom_lens_iff:
  "k \<in> set (atom_lens ic a s) \<longleftrightarrow> k \<le> length s \<and> atom_ok ic a (take k s)"
proof (cases a)
  case (Rep cs lo hi)
  show ?thesis
  proof (cases hi)
    case None
    with Rep show ?thesis
      by (auto simp: down_to_iff takeWhile_len Let_def)
  next
    case (Some h)
    with Rep show ?thesis
      by (auto simp: down_to_iff takeWhile_len Let_def)
  qed
next
  case (Lit w)
  then show ?thesis by (simp add: lit_lens_iff)
next
  case (Alt ws)
  then show ?thesis by (auto simp: lit_lens_iff list_ex_iff)
qed

lemma seq_matches_Cons_mem:
  "ms \<in> set (seq_matches ic (n # ns) s) \<longleftrightarrow>
     (\<exists>k\<in>set (atom_lens ic (atom_of n) s). \<exists>ms'\<in>set (seq_matches ic ns (drop k s)). ms = take k s # ms')"
  by auto

lemma seq_matches_iff:
  "ms \<in> set (seq_matches ic p s) \<longleftrightarrow> shape ic p ms \<and> (\<exists>rest. s = concat ms @ rest)"
proof (induction p arbitrary: s ms)
  case Nil
  then show ?case by (auto simp: shape_def)
next
  case (Cons n ns)
  show ?case
  proof
    assume "ms \<in> set (seq_matches ic (n # ns) s)"
    then obtain k ms' where k: "k \<in> set (atom_lens ic (atom_of n) s)"
      and ms': "ms' \<in> set (seq_matches ic ns (drop k s))" and ms: "ms = take k s # ms'"
      by auto
    from ms' Cons.IH obtain rest where r: "shape ic ns ms'" "drop k s = concat ms' @ rest"
      by blast
    from k have a: "k \<le> length s" "atom_ok ic (atom_of n) (take k s)"
      by (simp_all add: atom_lens_iff)
    have "s = take k s @ drop k s" by simp
    with r have "s = concat ms @ rest" using ms by (metis append.assoc concat.simps(2))
    moreover have "shape ic (n # ns) ms" using a r ms by (simp add: shape_def)
    ultimately show "shape ic (n # ns) ms \<and> (\<exists>rest. s = concat ms @ rest)" by blast
  next
    assume "shape ic (n # ns) ms \<and> (\<exists>rest. s = concat ms @ rest)"
    then obtain m ms' rest where ms: "ms = m # ms'" and a: "atom_ok ic (atom_of n) m"
      and sh: "shape ic ns ms'" and s: "s = m @ concat ms' @ rest"
      by (auto simp: shape_def list_all2_Cons1)
    let ?k = "length m"
    have tk: "take ?k s = m" and dk: "drop ?k s = concat ms' @ rest" using s by simp_all
    have "?k \<in> set (atom_lens ic (atom_of n) s)"
      using a tk s by (simp add: atom_lens_iff)
    moreover have "ms' \<in> set (seq_matches ic ns (drop ?k s))"
      using Cons.IH sh dk by blast
    moreover have "ms = take ?k s # ms'" using ms tk by simp
    ultimately show "ms \<in> set (seq_matches ic (n # ns) s)"
      unfolding seq_matches_Cons_mem by blast
  qed
qed

lemma match_here_None_iff:
  "match_here ic p s = None \<longleftrightarrow> \<not> (\<exists>ms rest. s = concat ms @ rest \<and> shape ic p ms)"
proof -
  have "match_here ic p s = None \<longleftrightarrow> set (seq_matches ic p s) = {}"
    by (simp add: match_here_def split: list.splits)
  also have "\<dots> \<longleftrightarrow> \<not> (\<exists>ms. ms \<in> set (seq_matches ic p s))" by auto
  finally show ?thesis by (auto simp: seq_matches_iff)
qed

lemma match_here_Some:
  "match_here ic p s = Some ms \<Longrightarrow> shape ic p ms \<and> (\<exists>rest. s = concat ms @ rest)"
proof -
  assume "match_here ic p s = Some ms"
  then have "ms \<in> set (seq_matches ic p s)"
    by (auto simp: match_here_def split: list.splits)
  then show ?thesis by (simp add: seq_matches_iff)
qed

lemma contains_shape_Nil:
  "contains_shape ic p [] \<longleftrightarrow> (\<exists>ms rest. [] = concat ms @ rest \<and> shape ic p ms)"
  by (auto simp: contains_shape_def)

lemma contains_shape_Cons:
  "contains_shape ic p (c # cs) \<longleftrightarrow>
     (\<exists>ms rest. c # cs = concat ms @ rest \<and> shape ic p ms) \<or> contains_shape ic p cs"
proof
  assume "contains_shape ic p (c # cs)"
  then obtain pre ms post where s: "c # cs = pre @ concat ms @ post" and sh: "shape ic p ms"
    by (auto simp: contains_shape_def)
  show "(\<exists>ms rest. c # cs = concat ms @ rest \<and> shape ic p ms) \<or> contains_shape ic p cs"
  proof (cases pre)
    case Nil
    with s have "c # cs = concat ms @ post" by simp
    with sh show ?thesis by blast
  next
    case (Cons a pre')
    with s have "cs = pre' @ concat ms @ post" by simp
    with sh have "contains_shape ic p cs" unfolding contains_shape_def by blast
    then show ?thesis by simp
  qed
next
  assume "(\<exists>ms rest. c # cs = concat ms @ rest \<and> shape ic p ms) \<or> contains_shape ic p cs"
  then show "contains_shape ic p (c # cs)"
  proof
    assume "\<exists>ms rest. c # cs = concat ms @ rest \<and> shape ic p ms"
    then obtain ms rest where "c # cs = [] @ concat ms @ rest" "shape ic p ms" by auto
    then show ?thesis unfolding contains_shape_def by blast
  next
    assume "contains_shape ic p cs"
    then obtain pre ms post where "cs = pre @ concat ms @ post" "shape ic p ms"
      by (auto simp: contains_shape_def)
    then have "c # cs = (c # pre) @ concat ms @ post" "shape ic p ms" by simp_all
    then show ?thesis unfolding contains_shape_def by blast
  qed
qed

lemma search_from_None_iff: "search_from ic p s = None \<longleftrightarrow> \<not> contains_shape ic p s"
proof (induction s)
  case Nil
  then show ?case by (simp add: match_here_None_iff contains_shape_Nil)
next
  case (Cons c cs)
  show ?case
  proof (cases "match_here ic p (c # cs)")
    case None
    then show ?thesis using Cons
      by (simp add: contains_shape_Cons) (simp add: match_here_None_iff)
  next
    case (Some ms)
    then have "\<exists>ms rest. c # cs = concat ms @ rest \<and> shape ic p ms"
      using match_here_Some by blast
    with Some show ?thesis by (simp add: contains_shape_Cons)
  qed
qed

lemma search_from_Some:
  "search_from ic p s = Some ms \<Longrightarrow> shape ic p ms \<and> (\<exists>pre post. s = pre @ concat ms @ post)"
proof (induction s)
  case Nil
  then show ?case using match_here_Some [of ic p "[]" ms] by auto
next
  case (Cons c cs)
  show ?case
  proof (cases "match_here ic p (c # cs)")
    case None
    with Cons.prems have "search_from ic p cs = Some ms" by simp
    with Cons.IH obtain pre post where "shape ic p ms" "cs = pre @ concat ms @ post" by blast
    then have "shape ic p ms" "c # cs = (c # pre) @ concat ms @ post" by simp_all
    then show ?thesis by blast
  next
    case (Some ms')
    with Cons.prems have "ms' = ms" by simp
    with Some match_here_Some [of ic p "c # cs" ms] obtain rest
      where "shape ic p ms" "c # cs = [] @ concat ms @ rest" by auto
    then show ?thesis by blast
  qed
qed

lemma in_cset_Digit: "in_cset ic Digit = is_digit"
  by (rule ext) simp

lemma in_cset_Space: "in_cset ic Space = is_space"
  by (rule ext) simp

lemma match_here_Nil: "match_here ic [] s = Some []"
  by (simp add: match_here_def)

lemma match_here_first:
  "atom_lens ic (atom_of n) s = k # ks \<Longrightarrow> match_here ic ns (drop k s) = Some ms
     \<Longrightarrow> match_here ic (n # ns) s = Some (take k s # ms)"
  by (auto simp: match_here_def split: list.splits)

lemma match_here_step:
  assumes "\<exists>ks. atom_lens ic (atom_of n) (m @ rest) = length m # ks"
    and "match_here ic ns rest = Some ms"
  shows "match_here ic (n # ns) (m @ rest) = Some (m # ms)"
proof -
  from assms(1) obtain ks where "atom_lens ic (atom_of n) (m @ rest) = length m # ks" by blast
  moreover have "match_here ic ns (drop (length m) (m @ rest)) = Some ms" using assms(2) by simp
  ultimately have "match_here ic (n # ns) (m @ rest) = Some (take (length m) (m @ rest) # ms)"
    by (rule match_here_first)
  then show ?thesis by simp
qed

lemma match_here_no_first:
  "atom_lens ic (atom_of n) s = [] \<Longrightarrow> match_here ic (n # ns) s = None"
  by (simp add: match_here_def)

lemma takeWhile_stop:
  "list_all P m \<Longrightarrow> rest = [] \<or> \<not> P (hd rest) \<Longrightarrow> takeWhile P (m @ rest) = m"
  by (cases rest) (auto simp: list_all_iff)

lemma down_to_head: "lo \<le> m \<Longrightarrow> 0 < m \<Longrightarrow> \<exists>ks. down_to lo m = m # ks"
  by (cases m) auto

lemma rep_first_stop:
  assumes "list_all (in_cset ic cs) m" "lo \<le> length m" "m \<noteq> []"
    and "case hi of None \<Rightarrow> True | Some h \<Rightarrow> length m \<le> h"
    and "rest = [] \<or> \<not> in_cset ic cs (hd rest)"
  shows "\<exists>ks. atom_lens ic (Rep cs lo hi) (m @ rest) = length m # ks"
proof -
  have tw: "takeWhile (in_cset ic cs) (m @ rest) = m"
    using assms(1,5) by (rule takeWhile_stop)
  have "(case hi of None \<Rightarrow> length m | Some h \<Rightarrow> min (length m) h) = length m"
    using assms(4) by (cases hi) (auto simp: min_def)
  then have "atom_lens ic (Rep cs lo hi) (m @ rest) = down_to lo (length m)"
    using tw by (simp add: Let_def)
  moreover have "\<exists>ks. down_to lo (length m) = length m # ks"
    using assms(2,3) by (intro down_to_head) auto
  ultimately show ?thesis by simp
qed

lemma rep_first_exact:
  assumes "list_all (in_cset ic cs) m" "lo \<le> length m" "m \<noteq> []"
  shows "\<exists>ks. atom_lens ic (Rep cs lo (Some (length m))) (m @ rest) = length m # ks"
proof -
  have "length m \<le> length (takeWhile (in_cset ic cs) (m @ rest))"
    using assms(1) by (simp add: takeWhile_len)
  then have "min (length (takeWhile (in_cset ic cs) (m @ rest))) (length m) = length m"
    by (simp add: min_def)
  then have "atom_lens ic (Rep cs lo (Some (length m))) (m @ rest) = down_to lo (length m)"
    by (simp add: Let_def)
  moreover have "\<exists>ks. down_to lo (length m) = length m # ks"
    using assms(2,3) by (intro down_to_head) auto
  ultimately show ?thesis by simp
qed

lemma lit_first: "\<exists>ks. atom_lens False (Lit w) (w @ rest) = length w # ks"
  by (simp add: lit_lens_def ch_eq_def list_all2_same)

lemma search_from_here: "match_here ic p s = Some ms \<Longrightarrow> search_from ic p s = Some ms"
  by (cases s) simp_all

lemma digit_rep_no_match:
  "\<not> is_digit c \<Longrightarrow> atom_lens ic (Rep Digit (Suc lo) hi) (c # cs) = []"
  by (cases hi) (simp_all add: Let_def)

lemma search_from_skip:
  assumes "list_all (\<lambda>c. \<not> is_digit c) pre" and "atom_of n = Rep Digit (Suc lo) hi"
  shows "search_from ic (n # ns) (pre @ s) = search_from ic (n # ns) s"
  using assms(1)
proof (induction pre)
  case Nil
  then show ?case by simp
next
  case (Cons c pre)
  then have "atom_lens ic (Rep Digit (Suc lo) hi) (c # pre @ s) = []"
    by (intro digit_rep_no_match) simp
  then have "atom_lens ic (atom_of n) (c # pre @ s) = []"
    using assms(2) by simp
  then have "match_here ic (n # ns) (c # pre @ s) = None"
    by (rule match_here_no_first)
  with Cons show ?case by simp
qed

lemma russian_match_here:
  assumes d: "list_all is_digit d" "length d = 1 \<or> length d = 2"
    and w1: "list_all is_space w1" "w1 \<noteq> []"
    and tok: "list_all (in_cset False cyr) tok" "tok \<noteq> []"
    and w2: "list_all is_space w2" "w2 \<noteq> []"
    and y: "list_all is_digit y" "length y = 4"
  shows "match_here False russian_pattern (d @ w1 @ tok @ w2 @ y @ rest) = Some [d, w1, tok, w2, y]"
proof -
  have y0: "y \<noteq> []" using y(2) by auto
  have d0: "d \<noteq> []" using d(2) by auto
  have hy: "is_digit (hd y)" using y(1) y0 by (cases y) auto
  have hw1: "is_space (hd w1)" using w1 by (cases w1) auto
  have hw2: "is_space (hd w2)" using w2 by (cases w2) auto
  have ht: "in_cset False cyr (hd tok)" using tok by (cases tok) auto
  have 5: "match_here False [Group (Rep Digit 4 (Some 4))] (y @ rest) = Some [y]"
  proof (rule match_here_step)
    show "\<exists>ks. atom_lens False (atom_of (Group (Rep Digit 4 (Some 4)))) (y @ rest) = length y # ks"
      using rep_first_exact [of False Digit y 4 rest] y y0 by (simp add: in_cset_Digit)
  qed (rule match_here_Nil)
  have 4: "match_here False [Plain (Rep Space 1 None), Group (Rep Digit 4 (Some 4))] (w2 @ y @ rest)
      = Some [w2, y]"
  proof (rule match_here_step)
    show "\<exists>ks. atom_lens False (atom_of (Plain (Rep Space 1 None))) (w2 @ y @ rest) = length w2 # ks"
      using rep_first_stop [of False Space w2 1 None "y @ rest"] w2 y0 hy digit_not_space
      by (cases w2) (auto simp: in_cset_Space)
  qed (rule 5)
  have 3: "match_here False [Group (Rep cyr 1 None), Plain (Rep Space 1 None),
      Group (Rep Digit 4 (Some 4))] (tok @ w2 @ y @ rest) = Some [tok, w2, y]"
  proof (rule match_here_step)
    show "\<exists>ks. atom_lens False (atom_of (Group (Rep cyr 1 None))) (tok @ w2 @ y @ rest) = length tok # ks"
      using rep_first_stop [of False cyr tok 1 None "w2 @ y @ rest"] tok w2 hw2 cyr_not_space
      by (cases tok) auto
  qed (rule 4)
  have 2: "match_here False [Plain (Rep Space 1 None), Group (Rep cyr 1 None),
      Plain (Rep Space 1 None), Group (Rep Digit 4 (Some 4))] (w1 @ tok @ w2 @ y @ rest)
      = Some [w1, tok, w2, y]"
  proof (rule match_here_step)
    show "\<exists>ks. atom_lens False (atom_of (Plain (Rep Space 1 None))) (w1 @ tok @ w2 @ y @ rest)
        = length w1 # ks"
      using rep_first_stop [of False Space w1 1 None "tok @ w2 @ y @ rest"] w1 tok ht cyr_not_space
      by (cases w1) (auto simp: in_cset_Space)
  qed (rule 3)
  show ?thesis unfolding russian_pattern_def
  proof (rule match_here_step)
    show "\<exists>ks. atom_lens False (atom_of (Group (Rep Digit 1 (Some 2)))) (d @ w1 @ tok @ w2 @ y @ rest)
        = length d # ks"
      using rep_first_stop [of False Digit d 1 "Some 2" "w1 @ tok @ w2 @ y @ rest"] d d0 w1 hw1
        space_not_digit
      by (cases d) (auto simp: in_cset_Digit)
  qed (rule 2)
qed

lemma py_int_ok:
  "list_all is_digit ds \<Longrightarrow> ds \<noteq> [] \<Longrightarrow> length ds \<le> 4300 \<Longrightarrow> py_int ds = Inr (int_of_digits ds)"
  by (simp add: py_int_def)

lemma pattern_ok_russian: "pattern_ok russian_pattern"
  by (simp add: pattern_ok_def russian_pattern_def cyr_def)

lemma pattern_ok_dot: "pattern_ok dot_pattern"
  by (simp add: pattern_ok_def dot_pattern_def)

lemma pattern_ok_iso: "pattern_ok iso_pattern"
  by (simp add: pattern_ok_def iso_pattern_def)

lemma lower_cyr: "list_all (in_cset False cyr) tok \<Longrightarrow> lower tok = tok"
  by (induction tok) (simp_all add: lower_def cyr_lower)

lemma russian_shapeD:
  assumes "shape False russian_pattern [d, w1, tok, w2, y]"
  shows "py_int d = Inr (int_of_digits d)" "py_int y = Inr (int_of_digits y)"
    "list_all (in_cset False cyr) tok"
proof -
  from assms have d: "1 \<le> length d" "length d \<le> 2" "list_all is_digit d"
    and y: "length y = 4" "list_all is_digit y" and t: "list_all (in_cset False cyr) tok"
    by (auto simp: shape_def russian_pattern_def in_cset_Digit)
  from d show "py_int d = Inr (int_of_digits d)" by (intro py_int_ok) auto
  from y show "py_int y = Inr (int_of_digits y)" by (intro py_int_ok) auto
  from t show "list_all (in_cset False cyr) tok" .
qed

lemma parse_russian_date_of_search:
  assumes "search_from False russian_pattern s = Some [d, w1, tok, w2, y]"
  shows "parse_russian_date s =
     (case map_of month_mapping tok of
        None \<Rightarrow> None
      | Some mon \<Rightarrow>
         if valid_date (int_of_digits y) mon (int_of_digits d)
         then Some \<lparr>year = int_of_digits y, month = mon, day = int_of_digits d,
                    hour = 0, minute = 0, second = 0, microsecond = 0\<rparr>
         else None)"
proof -
  from assms have sh: "shape False russian_pattern [d, w1, tok, w2, y]"
    using search_from_Some by blast
  have g: "groups russian_pattern [d, w1, tok, w2, y] = [d, tok, y]"
    by (simp add: groups_def russian_pattern_def)
  show ?thesis
    using assms g russian_shapeD [OF sh] lower_cyr [of tok]
    by (simp add: parse_russian_date_def parse_russian_date_body_def re_search_def
        pattern_ok_russian mk_datetime_def split: option.splits)
qed

lemma parse_russian_date_no_match:
  "search_from False russian_pattern s = None \<Longrightarrow> parse_russian_date s = None"
  by (simp add: parse_russian_date_def parse_russian_date_body_def re_search_def pattern_ok_russian)

lemma russian_search:
  assumes "list_all (\<lambda>c. \<not> is_digit c) pre"
    and "list_all is_digit d" "length d = 1 \<or> length d = 2"
    and "list_all is_space w1" "w1 \<noteq> []"
    and "list_all (in_cset False cyr) tok" "tok \<noteq> []"
    and "list_all is_space w2" "w2 \<noteq> []"
    and "list_all is_digit y" "length y = 4"
  shows "search_from False russian_pattern (pre @ d @ w1 @ tok @ w2 @ y @ rest)
     = Some [d, w1, tok, w2, y]"
proof -
  have "search_from False russian_pattern (pre @ d @ w1 @ tok @ w2 @ y @ rest)
      = search_from False russian_pattern (d @ w1 @ tok @ w2 @ y @ rest)"
    unfolding russian_pattern_def
    using assms(1) by (rule search_from_skip [where lo = 0 and hi = "Some 2"]) simp
  also have "\<dots> = Some [d, w1, tok, w2, y]"
    by (intro search_from_here russian_match_here assms)
  finally show ?thesis .
qed

text \<open>
  C2.  A text that holds, after a prefix without digits, one or two digits, white space,
  a run of Cyrillic small letters, white space and four digits is parsed by
  \<open>parse_russian_date\<close> as follows: when the run of letters is one of the twelve names
  of \<open>month_mapping\<close> and day, month and year form a calendar date, the result is exactly
  that date, with the day and the year read literally from the digits; when the run of
  letters is not in the mapping, there is no date.
\<close>

theorem parse_russian_date_exact:
  assumes "list_all (\<lambda>c. \<not> is_digit c) pre"
    and "list_all is_digit d" "length d = 1 \<or> length d = 2"
    and "list_all is_space w1" "w1 \<noteq> []"
    and "list_all (in_cset False cyr) tok" "tok \<noteq> []"
    and "list_all is_space w2" "w2 \<noteq> []"
    and "list_all is_digit y" "length y = 4"
  shows "(map_of month_mapping tok = Some mon \<and> valid_date (int_of_digits y) mon (int_of_digits d)
           \<longrightarrow> parse_russian_date (pre @ d @ w1 @ tok @ w2 @ y @ rest)
               = Some \<lparr>year = int_of_digits y, month = mon, day = int_of_digits d,
                        hour = 0, minute = 0, second = 0, microsecond = 0\<rparr>)
       \<and> (map_of month_mapping tok = None
           \<longrightarrow> parse_russian_date (pre @ d @ w1 @ tok @ w2 @ y @ rest) = None)"
proof -
  have "search_from False russian_pattern (pre @ d @ w1 @ tok @ w2 @ y @ rest)
      = Some [d, w1, tok, w2, y]"
    by (intro russian_search assms)
  then show ?thesis by (simp add: parse_russian_date_of_search)
qed

lemma int_of_digits_27: "int_of_digits [0x32, 0x37] = 27"
  by (simp add: int_of_digits_def digit_val_ascii)

lemma int_of_digits_2025: "int_of_digits [0x32, 0x30, 0x32, 0x35] = 2025"
  by (simp add: int_of_digits_def digit_val_ascii)

theorem parse_russian_date_exact_witness:
  "parse_russian_date text_27_oktyabrya = Some date_27_oktyabrya
   \<and> parse_russian_date text_27_kotov = None"
proof -
  let ?d = "[0x32, 0x37]" and ?y = "[0x32, 0x30, 0x32, 0x35]"
  have a: "parse_russian_date
        ([] @ ?d @ [0x20] @ [0x43e, 0x43a, 0x442, 0x44f, 0x431, 0x440, 0x44f] @ [0x20] @ ?y @ [])
     = Some \<lparr>year = 2025, month = 10, day = 27, hour = 0, minute = 0, second = 0,
         microsecond = 0\<rparr>"
    using parse_russian_date_exact [of "[]" ?d "[0x20]"
        "[0x43e, 0x43a, 0x442, 0x44f, 0x431, 0x440, 0x44f]" "[0x20]" ?y 10 "[]"]
    by (simp add: is_digit_small is_space_def in_cyr month_mapping_def valid_date_def
        days_in_month_def int_of_digits_27 int_of_digits_2025)
  have b: "parse_russian_date
        ([] @ ?d @ [0x20] @ [0x43a, 0x43e, 0x442, 0x43e, 0x432] @ [0x20] @ ?y @ []) = None"
    using parse_russian_date_exact [of "[]" ?d "[0x20]"
        "[0x43a, 0x43e, 0x442, 0x43e, 0x432]" "[0x20]" ?y 10 "[]"]
    by (simp add: is_digit_small is_space_def in_cyr month_mapping_def)
  from a b show ?thesis
    by (simp add: text_27_oktyabrya_def text_27_kotov_def date_27_oktyabrya_def)
qed

lemma down_to_unfold:
  "down_to lo m = (if m = 0 then (if lo = 0 then [0] else [])
     else if lo \<le> m then m # down_to lo (m - 1) else [])"
  by (cases m) simp_all

lemma dot_shapeD:
  assumes "shape False dot_pattern [d, p1, m, p2, y]"
  shows "py_int d = Inr (int_of_digits d)" "py_int m = Inr (int_of_digits m)"
    "py_int y = Inr (int_of_digits y)"
proof -
  from assms have d: "1 \<le> length d" "length d \<le> 2" "list_all is_digit d"
    and m: "1 \<le> length m" "length m \<le> 2" "list_all is_digit m"
    and y: "length y = 4" "list_all is_digit y"
    by (auto simp: shape_def dot_pattern_def in_cset_Digit)
  from d show "py_int d = Inr (int_of_digits d)" by (intro py_int_ok) auto
  from m show "py_int m = Inr (int_of_digits m)" by (intro py_int_ok) auto
  from y show "py_int y = Inr (int_of_digits y)" by (intro py_int_ok) auto
qed

lemma iso_shapeD:
  assumes "shape False iso_pattern [y, p1, m, p2, d]"
  shows "py_int d = Inr (int_of_digits d)" "py_int m = Inr (int_of_digits m)"
    "py_int y = Inr (int_of_digits y)"
proof -
  from assms have d: "1 \<le> length d" "length d \<le> 2" "list_all is_digit d"
    and m: "1 \<le> length m" "length m \<le> 2" "list_all is_digit m"
    and y: "length y = 4" "list_all is_digit y"
    by (auto simp: shape_def iso_pattern_def in_cset_Digit)
  from d show "py_int d = Inr (int_of_digits d)" by (intro py_int_ok) auto
  from m show "py_int m = Inr (int_of_digits m)" by (intro py_int_ok) auto
  from y show "py_int y = Inr (int_of_digits y)" by (intro py_int_ok) auto
qed

lemma parse_standard_date_of_dot:
  assumes "search_from False dot_pattern s = Some [d, p1, m, p2, y]"
  shows "parse_standard_date s =
     (if valid_date (int_of_digits y) (int_of_digits m) (int_of_digits d)
      then Some \<lparr>year = int_of_digits y, month = int_of_digits m, day = int_of_digits d,
                 hour = 0, minute = 0, second = 0, microsecond = 0\<rparr>
      else None)"
proof -
  from assms have sh: "shape False dot_pattern [d, p1, m, p2, y]"
    using search_from_Some by blast
  have g: "groups dot_pattern [d, p1, m, p2, y] = [d, m, y]"
    by (simp add: groups_def dot_pattern_def)
  show ?thesis
    using assms g dot_shapeD [OF sh]
    by (simp add: parse_standard_date_def parse_standard_date_body_def re_search_def
        pattern_ok_dot mk_datetime_def)
qed

lemma parse_standard_date_of_iso:
  assumes "search_from False dot_pattern s = None"
    and "search_from False iso_pattern s = Some [y, p1, m, p2, d]"
  shows "parse_standard_date s =
     (if valid_date (int_of_digits y) (int_of_digits m) (int_of_digits d)
      then Some \<lparr>year = int_of_digits y, month = int_of_digits m, day = int_of_digits d,
                 hour = 0, minute = 0, second = 0, microsecond = 0\<rparr>
      else None)"
proof -
  from assms(2) have sh: "shape False iso_pattern [y, p1, m, p2, d]"
    using search_from_Some by blast
  have g: "groups iso_pattern [y, p1, m, p2, d] = [y, m, d]"
    by (simp add: groups_def iso_pattern_def)
  show ?thesis
    using assms g iso_shapeD [OF sh]
    by (simp add: parse_standard_date_def parse_standard_date_body_def re_search_def
        pattern_ok_dot pattern_ok_iso mk_datetime_def)
qed

lemma parse_standard_date_no_match:
  "search_from False dot_pattern s = None \<Longrightarrow> search_from False iso_pattern s = None
     \<Longrightarrow> parse_standard_date s = None"
  by (simp add: parse_standard_date_def parse_standard_date_body_def re_search_def
      pattern_ok_dot pattern_ok_iso)

text \<open>
  C3.  When the numbers that a strategy extracts do not form a calendar date, the strategy
  yields no date: this holds for the day, month name and year that \<open>parse_russian_date\<close>
  finds, for the first \<^verbatim>\<open>DD.MM.YYYY\<close> match of \<open>parse_standard_date\<close> and, when there
  is no such match, for its first \<^verbatim>\<open>YYYY-MM-DD\<close> match.  The error of the date
  constructor does not leave the function, and no other date is returned in its place.
\<close>

theorem invalid_date_rejected:
  "(search_from False russian_pattern s = Some [d, w1, tok, w2, y]
      \<and> map_of month_mapping tok = Some mon
      \<and> \<not> valid_date (int_of_digits y) mon (int_of_digits d)
      \<longrightarrow> parse_russian_date_body s = Inl ValueError \<and> parse_russian_date s = None)
   \<and> (search_from False dot_pattern s = Some [d, p1, m, p2, y]
      \<and> \<not> valid_date (int_of_digits y) (int_of_digits m) (int_of_digits d)
      \<longrightarrow> parse_standard_date_body s = Inl ValueError \<and> parse_standard_date s = None)
   \<and> (search_from False dot_pattern s = None
      \<and> search_from False iso_pattern s = Some [y, p1, m, p2, d]
      \<and> \<not> valid_date (int_of_digits y) (int_of_digits m) (int_of_digits d)
      \<longrightarrow> parse_standard_date_body s = Inl ValueError \<and> parse_standard_date s = None)"
proof (intro conjI impI)
  assume a: "search_from False russian_pattern s = Some [d, w1, tok, w2, y]
      \<and> map_of month_mapping tok = Some mon
      \<and> \<not> valid_date (int_of_digits y) mon (int_of_digits d)"
  then have sh: "shape False russian_pattern [d, w1, tok, w2, y]"
    using search_from_Some by blast
  have g: "groups russian_pattern [d, w1, tok, w2, y] = [d, tok, y]"
    by (simp add: groups_def russian_pattern_def)
  show "parse_russian_date_body s = Inl ValueError"
    using a g russian_shapeD [OF sh] lower_cyr [of tok]
    by (simp add: parse_russian_date_body_def re_search_def pattern_ok_russian mk_datetime_def)
  then show "parse_russian_date s = None" by (simp add: parse_russian_date_def)
next
  assume a: "search_from False dot_pattern s = Some [d, p1, m, p2, y]
      \<and> \<not> valid_date (int_of_digits y) (int_of_digits m) (int_of_digits d)"
  then have sh: "shape False dot_pattern [d, p1, m, p2, y]"
    using search_from_Some by blast
  have g: "groups dot_pattern [d, p1, m, p2, y] = [d, m, y]"
    by (simp add: groups_def dot_pattern_def)
  show "parse_standard_date_body s = Inl ValueError"
    using a g dot_shapeD [OF sh]
    by (simp add: parse_standard_date_body_def re_search_def pattern_ok_dot mk_datetime_def)
  then show "parse_standard_date s = None" by (simp add: parse_standard_date_def)
next
  assume a: "search_from False dot_pattern s = None
      \<and> search_from False iso_pattern s = Some [y, p1, m, p2, d]
      \<and> \<not> valid_date (int_of_digits y) (int_of_digits m) (int_of_digits d)"
  then have sh: "shape False iso_pattern [y, p1, m, p2, d]"
    using search_from_Some by blast
  have g: "groups iso_pattern [y, p1, m, p2, d] = [y, m, d]"
    by (simp add: groups_def iso_pattern_def)
  show "parse_standard_date_body s = Inl ValueError"
    using a g iso_shapeD [OF sh]
    by (simp add: parse_standard_date_body_def re_search_def pattern_ok_dot pattern_ok_iso
        mk_datetime_def)
  then show "parse_standard_date s = None" by (simp add: parse_standard_date_def)
qed

lemmas search_eval = match_here_def is_digit_small is_space_def in_cyr lit_lens_def ch_eq_def
  down_to_unfold

lemma search_31_fevralya:
  "search_from False russian_pattern text_31_fevralya
   = Some [[0x33, 0x31], [0x20], [0x444, 0x435, 0x432, 0x440, 0x430, 0x43b, 0x44f], [0x20],
      [0x32, 0x30, 0x32, 0x35]]"
  using russian_search [of "[]" "[0x33, 0x31]" "[0x20]"
      "[0x444, 0x435, 0x432, 0x440, 0x430, 0x43b, 0x44f]" "[0x20]" "[0x32, 0x30, 0x32, 0x35]" "[]"]
  by (simp add: is_digit_small is_space_def in_cyr text_31_fevralya_def)

lemma search_dot_31_02:
  "search_from False dot_pattern text_31_02_dots
   = Some [[0x33, 0x31], [0x2e], [0x30, 0x32], [0x2e], [0x32, 0x30, 0x32, 0x35]]"
  by (simp add: dot_pattern_def search_eval text_31_02_dots_def)

lemma search_dot_iso_text: "search_from False dot_pattern text_2025_02_31 = None"
  by (simp add: dot_pattern_def search_eval text_2025_02_31_def)

lemma search_iso_02_31:
  "search_from False iso_pattern text_2025_02_31
   = Some [[0x32, 0x30, 0x32, 0x35], [0x2d], [0x30, 0x32], [0x2d], [0x33, 0x31]]"
  by (simp add: iso_pattern_def search_eval text_2025_02_31_def)

lemma int_of_digits_31: "int_of_digits [0x33, 0x31] = 31"
  by (simp add: int_of_digits_def digit_val_ascii)

lemma int_of_digits_02: "int_of_digits [0x30, 0x32] = 2"
  by (simp add: int_of_digits_def digit_val_ascii)

lemma february_31_invalid: "\<not> valid_date 2025 2 31"
  by (simp add: valid_date_def days_in_month_def is_leap_def)

theorem invalid_date_rejected_witness:
  "parse_russian_date text_31_fevralya = None
   \<and> parse_standard_date text_31_02_dots = None
   \<and> parse_standard_date text_2025_02_31 = None"
proof (intro conjI)
  let ?d = "[0x33, 0x31]" and ?m = "[0x30, 0x32]" and ?y = "[0x32, 0x30, 0x32, 0x35]"
  show "parse_russian_date text_31_fevralya = None"
    using invalid_date_rejected [of text_31_fevralya ?d "[0x20]"
      "[0x444, 0x435, 0x432, 0x440, 0x430, 0x43b, 0x44f]" "[0x20]" ?y 2]
      search_31_fevralya february_31_invalid
    by (simp add: month_mapping_def int_of_digits_31 int_of_digits_2025)
  show "parse_standard_date text_31_02_dots = None"
    using invalid_date_rejected [of text_31_02_dots ?d _ _ _ ?y _ "[0x2e]" ?m "[0x2e]"]
      search_dot_31_02 february_31_invalid
    by (simp add: int_of_digits_31 int_of_digits_02 int_of_digits_2025)
  show "parse_standard_date text_2025_02_31 = None"
    using invalid_date_rejected [of text_2025_02_31 ?d _ _ _ ?y _ "[0x2d]" ?m "[0x2d]"]
      search_dot_iso_text search_iso_02_31 february_31_invalid
    by (simp add: int_of_digits_31 int_of_digits_02 int_of_digits_2025)
qed

lemma pattern_ok_number: "pattern_ok number_pattern"
  by (simp add: pattern_ok_def number_pattern_def)

lemma findall_skip:
  "list_all (\<lambda>c. \<not> is_digit c) pre \<Longrightarrow>
     re_findall_from False number_pattern (pre @ s) = re_findall_from False number_pattern s"
proof (induction pre)
  case Nil
  then show ?case by simp
next
  case (Cons c pre)
  then have "atom_lens False (Rep Digit (Suc 0) None) (c # pre @ s) = []"
    by (intro digit_rep_no_match) simp
  then have "match_here False number_pattern (c # pre @ s) = None"
    unfolding number_pattern_def by (intro match_here_no_first) simp
  with Cons show ?case by simp
qed

lemma findall_number:
  assumes "list_all is_digit N" "N \<noteq> []" "rest = [] \<or> \<not> is_digit (hd rest)"
  shows "re_findall_from False number_pattern (N @ rest)
     = N # re_findall_from False number_pattern rest"
proof -
  have "\<exists>ks. atom_lens False (Rep Digit 1 None) (N @ rest) = length N # ks"
    using assms by (intro rep_first_stop) (auto simp: in_cset_Digit Suc_le_eq)
  then have m: "match_here False number_pattern (N @ rest) = Some [N]"
    unfolding number_pattern_def by (intro match_here_step) (simp_all add: match_here_Nil)
  from assms(2) obtain c cs where N: "N = c # cs" by (cases N) auto
  have "re_findall_from False number_pattern ((c # cs) @ rest)
      = (c # cs) # re_findall_from False number_pattern rest"
    using m unfolding N by simp
  then show ?thesis unfolding N .
qed

lemma findall_first_integer:
  assumes "list_ex is_digit s"
  shows "\<exists>ns. re_findall_from False number_pattern s = first_integer s # ns"
    and "first_integer s \<noteq> []" and "list_all is_digit (first_integer s)"
proof -
  let ?nd = "\<lambda>c. \<not> is_digit c"
  let ?pre = "takeWhile ?nd s" and ?t = "dropWhile ?nd s"
  let ?N = "takeWhile is_digit ?t" and ?rest = "dropWhile is_digit ?t"
  have t0: "?t \<noteq> []" using assms by (auto simp: list_ex_iff dropWhile_eq_Nil_conv)
  then have ht: "is_digit (hd ?t)" using hd_dropWhile [of ?nd s] by simp
  with t0 have N0: "?N \<noteq> []" by (cases ?t) auto
  have Nd: "list_all is_digit ?N" by (auto simp: list_all_iff dest: set_takeWhileD)
  have r: "?rest = [] \<or> \<not> is_digit (hd ?rest)" using hd_dropWhile [of is_digit ?t] by auto
  have p: "list_all ?nd ?pre" by (auto simp: list_all_iff dest: set_takeWhileD)
  have "s = ?pre @ ?N @ ?rest" by simp
  then have "re_findall_from False number_pattern s
      = re_findall_from False number_pattern (?pre @ ?N @ ?rest)" by simp
  also have "\<dots> = re_findall_from False number_pattern (?N @ ?rest)"
    using p by (rule findall_skip)
  also have "\<dots> = ?N # re_findall_from False number_pattern ?rest"
    using Nd N0 r by (rule findall_number)
  finally show "\<exists>ns. re_findall_from False number_pattern s = first_integer s # ns"
    by (simp add: first_integer_def)
  show "first_integer s \<noteq> []" using N0 by (simp add: first_integer_def)
  show "list_all is_digit (first_integer s)" using Nd by (simp add: first_integer_def)
qed

lemma parse_relative_date_chain:
  assumes "list_ex is_digit s" and "length (first_integer s) \<le> 4300"
  shows "parse_relative_date now s =
     (if isin stem_den s \<or> isin stem_dnya s \<or> isin stem_dney s
        then minus_units now timedelta_days (int_of_digits (first_integer s))
      else if isin stem_chas s \<or> isin stem_chasa s \<or> isin stem_chasov s
        then minus_units now timedelta_hours (int_of_digits (first_integer s))
      else if isin stem_minut s
        then minus_units now timedelta_minutes (int_of_digits (first_integer s))
      else if isin stem_nedel s
        then minus_units now timedelta_weeks (int_of_digits (first_integer s))
      else None)"
proof -
  from findall_first_integer [OF assms(1)] obtain ns
    where f: "re_findall_from False number_pattern s = first_integer s # ns"
      and n: "first_integer s \<noteq> []" "list_all is_digit (first_integer s)" by blast
  have i: "py_int (first_integer s) = Inr (int_of_digits (first_integer s))"
    using n assms(2) by (intro py_int_ok)
  show ?thesis
    by (simp add: parse_relative_date_def parse_relative_date_body_def re_findall_def
        pattern_ok_number f i minus_units_def)
qed

lemma findall_no_digit:
  assumes "list_all (\<lambda>c. \<not> is_digit c) s"
  shows "re_findall_from False number_pattern s = []"
proof -
  have "match_here False number_pattern [] = None"
    unfolding number_pattern_def by (intro match_here_no_first) simp
  then have "re_findall_from False number_pattern [] = []" by simp
  then show ?thesis using findall_skip [OF assms, of "[]"] by simp
qed

lemma isin_append: "isin w t \<Longrightarrow> isin w (p @ t)"
  by (induction p) simp_all

lemma first_integer_prefix:
  assumes "list_all is_digit N" "N \<noteq> []" "rest = [] \<or> \<not> is_digit (hd rest)"
  shows "first_integer (N @ rest) = N"
proof -
  from assms obtain c cs where N: "N = c # cs" and c: "is_digit c" by (cases N) auto
  then have "dropWhile (\<lambda>c. \<not> is_digit c) (N @ rest) = N @ rest" by simp
  moreover have "takeWhile is_digit (N @ rest) = N"
    using assms(1,3) by (rule takeWhile_stop)
  ultimately show ?thesis by (simp add: first_integer_def)
qed

lemma days_before_month_unfold:
  "days_before_month y m = (if m = 0 \<or> m = 1 then 0
     else days_before_month y (m - 1) + days_in_month y (int (m - 1)))"
proof (cases m)
  case 0
  then show ?thesis by simp
next
  case (Suc k)
  then show ?thesis by (cases k) simp_all
qed

text \<open>
  The relative parser of bankinform on a text that holds an integer: the amount is the
  first integer of the text, the unit is found by the substring tests on the stems in the
  order days, hours, minutes, weeks, the first hit wins (so a text with a day stem and an
  hour stem counts days), and the result is \<open>now\<close> minus that many units; without a stem,
  and without an integer, there is no date.  For a text \<open>N\<close> dney nazad (\<open>N\<close> days ago) the
  result is \<open>now\<close> minus \<open>N\<close> days whenever the library can form it.
\<close>

theorem parse_relative_date_units:
  "(list_ex is_digit s \<and> length (first_integer s) \<le> 4300 \<longrightarrow>
      parse_relative_date now s =
       (if isin stem_den s \<or> isin stem_dnya s \<or> isin stem_dney s
          then minus_units now timedelta_days (int_of_digits (first_integer s))
        else if isin stem_chas s \<or> isin stem_chasa s \<or> isin stem_chasov s
          then minus_units now timedelta_hours (int_of_digits (first_integer s))
        else if isin stem_minut s
          then minus_units now timedelta_minutes (int_of_digits (first_integer s))
        else if isin stem_nedel s
          then minus_units now timedelta_weeks (int_of_digits (first_integer s))
        else None))
   \<and> (\<not> list_ex is_digit s \<longrightarrow> parse_relative_date now s = None)
   \<and> (list_all is_digit N \<and> N \<noteq> [] \<and> length N \<le> 4300
        \<and> timedelta_days (int_of_digits N) = Inr td \<and> dt_sub now td = Inr r \<longrightarrow>
      parse_relative_date now (N @ days_ago_suffix) = Some r)"
proof (intro conjI impI)
  assume "list_ex is_digit s \<and> length (first_integer s) \<le> 4300"
  then show "parse_relative_date now s =
       (if isin stem_den s \<or> isin stem_dnya s \<or> isin stem_dney s
          then minus_units now timedelta_days (int_of_digits (first_integer s))
        else if isin stem_chas s \<or> isin stem_chasa s \<or> isin stem_chasov s
          then minus_units now timedelta_hours (int_of_digits (first_integer s))
        else if isin stem_minut s
          then minus_units now timedelta_minutes (int_of_digits (first_integer s))
        else if isin stem_nedel s
          then minus_units now timedelta_weeks (int_of_digits (first_integer s))
        else None)"
    by (intro parse_relative_date_chain) simp_all
next
  assume "\<not> list_ex is_digit s"
  then have "list_all (\<lambda>c. \<not> is_digit c) s" by (simp add: list_ex_iff list_all_iff)
  then have "re_findall_from False number_pattern s = []" by (rule findall_no_digit)
  then show "parse_relative_date now s = None"
    by (simp add: parse_relative_date_def parse_relative_date_body_def re_findall_def
        pattern_ok_number)
next
  let ?suf = days_ago_suffix
  assume a: "list_all is_digit N \<and> N \<noteq> [] \<and> length N \<le> 4300
        \<and> timedelta_days (int_of_digits N) = Inr td \<and> dt_sub now td = Inr r"
  have nd: "\<not> is_digit (hd ?suf)" by (simp add: is_digit_small days_ago_suffix_def)
  have fi: "first_integer (N @ ?suf) = N"
    using a nd by (intro first_integer_prefix) simp_all
  have ex: "list_ex is_digit (N @ ?suf)" using a by (cases N) auto
  have "isin stem_dney ?suf" by (simp add: stem_dney_def days_ago_suffix_def)
  then have st: "isin stem_dney (N @ ?suf)" by (rule isin_append)
  have "parse_relative_date now (N @ ?suf) = minus_units now timedelta_days (int_of_digits N)"
    using parse_relative_date_chain [of "N @ ?suf" now] ex fi a st by simp
  also have "\<dots> = Some r" using a by (simp add: minus_units_def)
  finally show "parse_relative_date now (N @ ?suf) = Some r" .
qed

lemma timedelta_days_5: "timedelta_days 5 = Inr \<lparr>td_days = 5, td_seconds = 0\<rparr>"
  by (simp add: timedelta_days_def mk_timedelta_def)

lemma dt_sub_5_days: "dt_sub clock \<lparr>td_days = 5, td_seconds = 0\<rparr> = Inr clock_minus_5_days"
  by (simp add: dt_sub_def toordinal_def ord2ymd_def days_before_year_def
      days_before_month_unfold days_in_month_def is_leap_def Let_def clock_def
      clock_minus_5_days_def)

lemma timedelta_days_3: "timedelta_days 3 = Inr \<lparr>td_days = 3, td_seconds = 0\<rparr>"
  by (simp add: timedelta_days_def mk_timedelta_def)

lemma dt_sub_3_days: "dt_sub clock \<lparr>td_days = 3, td_seconds = 0\<rparr> = Inr clock_minus_3_days"
  by (simp add: dt_sub_def toordinal_def ord2ymd_def days_before_year_def
      days_before_month_unfold days_in_month_def is_leap_def Let_def clock_def
      clock_minus_3_days_def)

lemma int_of_digits_3: "int_of_digits [0x33] = 3"
  by (simp add: int_of_digits_def digit_val_ascii)

lemma int_of_digits_5: "int_of_digits [0x35] = 5"
  by (simp add: int_of_digits_def digit_val_ascii)

lemma text_5_days_ago_eq: "text_5_days_ago = [0x35] @ days_ago_suffix"
  by (simp add: text_5_days_ago_def days_ago_suffix_def)

theorem parse_relative_date_examples:
  "parse_relative_date clock text_5_days_ago = Some clock_minus_5_days
   \<and> parse_relative_date clock text_ago = None
   \<and> parse_relative_date clock text_hours_and_day = Some clock_minus_3_days"
proof (intro conjI)
  show "parse_relative_date clock text_5_days_ago = Some clock_minus_5_days"
    using parse_relative_date_units [of _ clock "[0x35]" "\<lparr>td_days = 5, td_seconds = 0\<rparr>"
        clock_minus_5_days]
      timedelta_days_5 dt_sub_5_days
    by (simp add: is_digit_small int_of_digits_5 text_5_days_ago_eq)
  show "parse_relative_date clock text_ago = None"
    using parse_relative_date_units [of text_ago clock]
    by (simp add: is_digit_small text_ago_def)
  have "first_integer text_hours_and_day = [0x33]"
    by (simp add: first_integer_def is_digit_small text_hours_and_day_def)
  moreover have "list_ex is_digit text_hours_and_day"
    by (simp add: is_digit_small text_hours_and_day_def)
  moreover have "isin stem_den text_hours_and_day"
    by (simp add: stem_den_def text_hours_and_day_def)
  moreover have "isin stem_chas text_hours_and_day"
    by (simp add: stem_chas_def text_hours_and_day_def)
  ultimately show "parse_relative_date clock text_hours_and_day = Some clock_minus_3_days"
    using parse_relative_date_units [of text_hours_and_day clock]
      timedelta_days_3 dt_sub_3_days
    by (simp add: int_of_digits_3 minus_units_def)
qed

lemma pw_parse_relative_date_no_stem:
  assumes "\<not> isin pw_stem_den t" "\<not> isin pw_stem_dnya t" "\<not> isin pw_stem_dney t"
    and "\<not> isin pw_stem_chas t" "\<not> isin pw_stem_chasa t" "\<not> isin pw_stem_chasov t"
    and "\<not> isin pw_stem_minut t" "\<not> isin pw_stem_nedel t"
  shows "pw_parse_relative_date now t = None"
proof (cases "re_findall_from False number_pattern t")
  case Nil
  then show ?thesis
    by (simp add: pw_parse_relative_date_def pw_parse_relative_date_body_def re_findall_def
        pattern_ok_number)
next
  case (Cons n0 ns)
  then show ?thesis using assms
    by (cases "py_int n0")
       (simp_all add: pw_parse_relative_date_def pw_parse_relative_date_body_def
        re_findall_def pattern_ok_number)
qed

lemmas pw_stem_defs = pw_stem_den_def pw_stem_dnya_def pw_stem_dney_def pw_stem_chas_def
  pw_stem_chasa_def pw_stem_chasov_def pw_stem_minut_def pw_stem_nedel_def

lemma pattern_ok_icon: "pattern_ok icon_pattern"
  by (simp add: pattern_ok_def icon_pattern_def)

lemma pattern_ok_ws: "pattern_ok ws_pattern"
  by (simp add: pattern_ok_def ws_pattern_def)

lemma date_patterns_ok: "list_all pattern_ok date_patterns"
  by (simp add: date_patterns_def pattern_ok_def word_date_pattern_def dot_date_pattern_def
      slash_pattern_def iso_date_pattern_def day_word_pattern_def relative_pattern_def cyr_def)

lemma first_found_eq:
  "list_all pattern_ok ps \<Longrightarrow>
     first_found ps t = Inr (if list_ex (\<lambda>p. contains_shape True p t) ps then Some t else None)"
proof (induction ps)
  case Nil
  then show ?case by simp
next
  case (Cons p ps)
  then show ?case
    using search_from_None_iff [of True p t]
    by (cases "search_from True p t") (simp_all add: re_search_def)
qed

lemma clean_date_text_eq:
  "clean_date_text (Some s) =
     Inr (if s \<noteq> [] \<and> list_ex (\<lambda>p. contains_shape True p (sanitized s)) date_patterns
          then Some (sanitized s) else None)"
  by (simp add: clean_date_text_def re_sub_def pattern_ok_icon pattern_ok_ws
      first_found_eq [OF date_patterns_ok] sanitized_def)

lemma parse_date_text_eq:
  "parse_date_text now (Some s) =
     Inr (if s \<noteq> [] \<and> sanitized s \<noteq> []
            \<and> list_ex (\<lambda>p. contains_shape True p (sanitized s)) date_patterns
          then (case parse_russian_date (sanitized s) of
                  Some d \<Rightarrow> Some d
                | None \<Rightarrow>
                   (case parse_relative_date now (sanitized s) of
                      Some d \<Rightarrow> Some d
                    | None \<Rightarrow> parse_standard_date (sanitized s)))
          else None)"
  by (simp add: parse_date_text_def clean_date_text_eq split: option.splits)

lemma contains_shape_code: "contains_shape ic p s \<longleftrightarrow> search_from ic p s \<noteq> None"
  by (simp add: search_from_None_iff)

lemma ch_eq_mono: "ch_eq False p c \<Longrightarrow> ch_eq True p c"
  by (simp add: ch_eq_def)

lemma in_citem_mono: "in_citem False it c \<Longrightarrow> in_citem True it c"
proof (cases it)
  case (Single p)
  then show "in_citem False it c \<Longrightarrow> in_citem True it c" by (simp add: ch_eq_def)
next
  case (Range lo hi)
  assume "in_citem False it c"
  with Range have "c \<in> set [lo..<Suc hi]" by auto
  moreover have "ch_eq True c c" by (simp add: ch_eq_def)
  ultimately show "in_citem True it c" using Range by (auto simp: list_ex_iff)
qed

lemma in_cset_mono: "in_cset False cs c \<Longrightarrow> in_cset True cs c"
  by (cases cs) (auto simp: list_ex_iff intro: in_citem_mono)

lemma lit_mono: "list_all2 (ch_eq False) w m \<Longrightarrow> list_all2 (ch_eq True) w m"
  by (erule list_all2_mono) (rule ch_eq_mono)

lemma atom_ok_mono: "atom_ok False a m \<Longrightarrow> atom_ok True a m"
  by (cases a) (auto simp: list_all_iff list_ex_iff intro: in_cset_mono lit_mono)

lemma shape_mono:
  assumes "shape False p ms" and "map atom_of p = map atom_of q"
  shows "shape True q ms"
proof -
  from assms(2) have l: "length p = length q" by (rule map_eq_imp_length_eq)
  from assms(1) have lm: "length p = length ms" by (simp add: shape_def list_all2_lengthD)
  have "\<forall>i<length q. atom_ok True (atom_of (q ! i)) (ms ! i)"
  proof (intro allI impI)
    fix i assume i: "i < length q"
    with l assms(1) have "atom_ok False (atom_of (p ! i)) (ms ! i)"
      by (simp add: shape_def list_all2_conv_all_nth)
    moreover have "atom_of (p ! i) = atom_of (q ! i)"
      using assms(2) i l by (metis nth_map)
    ultimately show "atom_ok True (atom_of (q ! i)) (ms ! i)" by (simp add: atom_ok_mono)
  qed
  with l lm show ?thesis by (simp add: shape_def list_all2_conv_all_nth)
qed

lemma contains_shape_mono:
  "contains_shape False p s \<Longrightarrow> map atom_of p = map atom_of q \<Longrightarrow> contains_shape True q s"
  unfolding contains_shape_def using shape_mono by blast

lemma search_contains:
  "search_from False p s = Some ms \<Longrightarrow> map atom_of p = map atom_of q \<Longrightarrow> contains_shape True q s"
  using contains_shape_mono [of p s q] by (simp add: contains_shape_code)

lemma cyr_ic_ascii: "c < 0x80 \<Longrightarrow> \<not> in_cset True cyr c"
  by (auto simp: cyr_def list_ex_iff ch_eq_def to_lower_def ignorecase_fixes_def
      split: if_splits)

lemma pw_no_iso_shape:
  "\<not> list_ex (\<lambda>p. contains_shape True p text_2025_02_31) pw_date_patterns"
proof -
  have 1: "search_from True pw_word_date_pattern text_2025_02_31 = None"
    by (simp add: text_2025_02_31_def pw_word_date_pattern_def search_eval)
  have 2: "search_from True dot_date_pattern text_2025_02_31 = None"
    by (simp add: text_2025_02_31_def dot_date_pattern_def search_eval to_lower_def
        ignorecase_fixes_def)
  have 3: "search_from True slash_pattern text_2025_02_31 = None"
    by (simp add: text_2025_02_31_def slash_pattern_def search_eval to_lower_def
        ignorecase_fixes_def)
  have 4: "search_from True pw_day_word_pattern text_2025_02_31 = None"
    by (simp add: text_2025_02_31_def pw_day_word_pattern_def search_eval)
  have 5: "search_from True pw_relative_pattern text_2025_02_31 = None"
    by (simp add: text_2025_02_31_def pw_relative_pattern_def search_eval)
  have 6: "search_from True pw_english_pattern text_2025_02_31 = None"
    by (simp add: text_2025_02_31_def pw_english_pattern_def search_eval)
  show ?thesis by (simp add: pw_date_patterns_def contains_shape_code 1 2 3 4 5 6)
qed

lemma iso_shape_found: "contains_shape True iso_date_pattern text_2025_02_31"
  by (simp add: contains_shape_code text_2025_02_31_def iso_date_pattern_def search_eval
      to_lower_def ignorecase_fixes_def)

lemma english_shape_found: "contains_shape True pw_english_pattern text_3_days_ago"
  by (simp add: contains_shape_code text_3_days_ago_def pw_english_pattern_def search_eval
      to_lower_def ignorecase_fixes_def)

lemma sanitized_3_days_ago: "sanitized text_3_days_ago = text_3_days_ago"
  by (simp add: sanitized_def strip_def icon_pattern_def ws_pattern_def search_eval
      text_3_days_ago_def)

lemma no_english_shape:
  "\<not> list_ex (\<lambda>p. contains_shape True p text_3_days_ago) date_patterns"
proof -
  have c: "\<not> in_cset True cyr 0x64" "\<not> in_cset True cyr 0x61"
    by (simp_all add: cyr_ic_ascii)
  have 1: "search_from True word_date_pattern text_3_days_ago = None"
    by (simp add: text_3_days_ago_def word_date_pattern_def match_here_def is_digit_small
        is_space_def down_to_unfold c)
  have 2: "search_from True dot_date_pattern text_3_days_ago = None"
    by (simp add: text_3_days_ago_def dot_date_pattern_def search_eval to_lower_def
        ignorecase_fixes_def)
  have 3: "search_from True slash_pattern text_3_days_ago = None"
    by (simp add: text_3_days_ago_def slash_pattern_def search_eval to_lower_def
        ignorecase_fixes_def)
  have 4: "search_from True iso_date_pattern text_3_days_ago = None"
    by (simp add: text_3_days_ago_def iso_date_pattern_def search_eval)
  have 5: "search_from True day_word_pattern text_3_days_ago = None"
    by (simp add: text_3_days_ago_def day_word_pattern_def match_here_def is_digit_small
        is_space_def down_to_unfold c)
  have 6: "search_from True relative_pattern text_3_days_ago = None"
    by (simp add: text_3_days_ago_def relative_pattern_def search_eval to_lower_def
        ignorecase_fixes_def stem_chas_def stem_den_def stem_dnya_def stem_dney_def
        stem_minut_def stem_nedel_def)
  show ?thesis by (simp add: date_patterns_def contains_shape_code 1 2 3 4 5 6)
qed

text \<open>
  C6, as amended.  \<open>clean_date_text\<close> of bankinform accepts a text exactly when its
  sanitized form holds, with letter case ignored, one of the six shapes of
  \<open>date_patterns\<close>: one or two digits, white space, a run of Cyrillic letters (any word,
  not only a month name) and a four-digit year;
  \<^verbatim>\<open>D.M.YYYY\<close>; \<^verbatim>\<open>D/M/YYYY\<close>; \<^verbatim>\<open>YYYY-M-D\<close>; one or two digits, white space and a run
  of Cyrillic letters; a number, white space and a relative-unit stem.  When no shape is
  found the text is rejected and \<open>parse_date_text\<close> returns no date without calling a
  parser.  The loop over the patterns, which both spiders have, accepts a text exactly
  when a pattern of its list is found, given that the patterns compile.  The list of
  plusworld is another one: it has the \<^verbatim>\<open>D.M.YYYY\<close> and \<^verbatim>\<open>D/M/YYYY\<close> patterns of
  bankinform, no \<^verbatim>\<open>YYYY-M-D\<close> pattern (none of its patterns is found in "2025-02-31",
  where bankinform finds one) and a pattern for a number and an English unit (found in
  "3 days ago", where bankinform finds none of its patterns and rejects the text).
\<close>

theorem clean_date_text_validates:
  "clean_date_text (Some s) =
     Inr (if s \<noteq> [] \<and> list_ex (\<lambda>p. contains_shape True p (sanitized s)) date_patterns
          then Some (sanitized s) else None)
   \<and> date_patterns = [word_date_pattern, dot_date_pattern, slash_pattern, iso_date_pattern,
        day_word_pattern, relative_pattern]
   \<and> (\<not> list_ex (\<lambda>p. contains_shape True p (sanitized s)) date_patterns
        \<longrightarrow> clean_date_text (Some s) = Inr None \<and> parse_date_text now (Some s) = Inr None)
   \<and> (list_all pattern_ok ps \<longrightarrow>
        first_found ps t =
          Inr (if list_ex (\<lambda>p. contains_shape True p t) ps then Some t else None))
   \<and> pw_date_patterns = [pw_word_date_pattern, dot_date_pattern, slash_pattern,
        pw_day_word_pattern, pw_relative_pattern, pw_english_pattern]
   \<and> iso_date_pattern \<notin> set pw_date_patterns
   \<and> \<not> list_ex (\<lambda>p. contains_shape True p text_2025_02_31) pw_date_patterns
   \<and> contains_shape True iso_date_pattern text_2025_02_31
   \<and> contains_shape True pw_english_pattern text_3_days_ago
   \<and> clean_date_text (Some text_3_days_ago) = Inr None"
proof (intro conjI impI)
  show "clean_date_text (Some s) =
     Inr (if s \<noteq> [] \<and> list_ex (\<lambda>p. contains_shape True p (sanitized s)) date_patterns
          then Some (sanitized s) else None)"
    by (rule clean_date_text_eq)
  show "date_patterns = [word_date_pattern, dot_date_pattern, slash_pattern, iso_date_pattern,
        day_word_pattern, relative_pattern]"
    by (rule date_patterns_def)
  show "pw_date_patterns = [pw_word_date_pattern, dot_date_pattern, slash_pattern,
        pw_day_word_pattern, pw_relative_pattern, pw_english_pattern]"
    by (rule pw_date_patterns_def)
  show "iso_date_pattern \<notin> set pw_date_patterns"
    by (simp add: pw_date_patterns_def iso_date_pattern_def pw_word_date_pattern_def
        dot_date_pattern_def slash_pattern_def pw_day_word_pattern_def
        pw_relative_pattern_def pw_english_pattern_def)
  show "\<not> list_ex (\<lambda>p. contains_shape True p text_2025_02_31) pw_date_patterns"
    by (rule pw_no_iso_shape)
  show "contains_shape True iso_date_pattern text_2025_02_31"
    by (rule iso_shape_found)
  show "contains_shape True pw_english_pattern text_3_days_ago"
    by (rule english_shape_found)
  show "clean_date_text (Some text_3_days_ago) = Inr None"
    using no_english_shape by (simp add: clean_date_text_eq sanitized_3_days_ago)
next
  assume "\<not> list_ex (\<lambda>p. contains_shape True p (sanitized s)) date_patterns"
  then show "clean_date_text (Some s) = Inr None" "parse_date_text now (Some s) = Inr None"
    by (simp_all add: clean_date_text_eq parse_date_text_eq)
next
  assume "list_all pattern_ok ps"
  then show "first_found ps t =
       Inr (if list_ex (\<lambda>p. contains_shape True p t) ps then Some t else None)"
    by (rule first_found_eq)
qed

lemma sanitized_27_oktyabrya: "sanitized text_27_oktyabrya = text_27_oktyabrya"
  by (simp add: sanitized_def strip_def icon_pattern_def ws_pattern_def search_eval
      text_27_oktyabrya_def)

lemma search_27_oktyabrya:
  "search_from False russian_pattern text_27_oktyabrya
   = Some [[0x32, 0x37], [0x20], [0x43e, 0x43a, 0x442, 0x44f, 0x431, 0x440, 0x44f], [0x20],
      [0x32, 0x30, 0x32, 0x35]]"
  using russian_search [of "[]" "[0x32, 0x37]" "[0x20]"
      "[0x43e, 0x43a, 0x442, 0x44f, 0x431, 0x440, 0x44f]" "[0x20]" "[0x32, 0x30, 0x32, 0x35]" "[]"]
  by (simp add: is_digit_small is_space_def in_cyr text_27_oktyabrya_def)

lemma sanitized_prose: "sanitized text_prose = text_prose"
  by (simp add: sanitized_def strip_def icon_pattern_def ws_pattern_def search_eval
      text_prose_def)

lemma no_digit_no_shape:
  assumes "list_all (\<lambda>c. \<not> is_digit c) t" and "p \<in> set date_patterns"
  shows "\<not> contains_shape True p t"
proof -
  from assms(2) obtain n ns lo hi where p: "p = n # ns" "atom_of n = Rep Digit (Suc lo) hi"
    by (auto simp: date_patterns_def word_date_pattern_def dot_date_pattern_def
        slash_pattern_def iso_date_pattern_def day_word_pattern_def relative_pattern_def
        numeral_eq_Suc)
  have "atom_lens True (atom_of n) [] = []" using p(2) by (cases hi) simp_all
  then have "match_here True (n # ns) [] = None" by (rule match_here_no_first)
  then have "search_from True (n # ns) (t @ []) = None"
    using search_from_skip [OF assms(1) p(2), of True ns "[]"] by simp
  then show ?thesis using p(1) by (simp add: contains_shape_code)
qed

theorem clean_date_text_validates_witness:
  "clean_date_text (Some text_27_oktyabrya) = Inr (Some text_27_oktyabrya)
   \<and> clean_date_text (Some text_prose) = Inr None
   \<and> parse_date_text clock (Some text_prose) = Inr None
   \<and> first_found [dot_date_pattern, slash_pattern, pw_english_pattern] text_3_days_ago
       = Inr (Some text_3_days_ago)"
proof -
  let ?ps = "[dot_date_pattern, slash_pattern, pw_english_pattern]"
  have "contains_shape True word_date_pattern text_27_oktyabrya"
    using search_27_oktyabrya
    by (rule search_contains) (simp add: russian_pattern_def word_date_pattern_def)
  then have "list_ex (\<lambda>p. contains_shape True p (sanitized text_27_oktyabrya)) date_patterns"
    by (simp add: sanitized_27_oktyabrya date_patterns_def)
  moreover have "text_27_oktyabrya \<noteq> []" by (simp add: text_27_oktyabrya_def)
  ultimately have a: "clean_date_text (Some text_27_oktyabrya) = Inr (Some text_27_oktyabrya)"
    using clean_date_text_validates [of text_27_oktyabrya clock ?ps text_3_days_ago]
    by (simp add: sanitized_27_oktyabrya)
  have "list_all (\<lambda>c. \<not> is_digit c) text_prose"
    by (simp add: is_digit_small text_prose_def)
  then have "\<not> list_ex (\<lambda>p. contains_shape True p (sanitized text_prose)) date_patterns"
    using no_digit_no_shape [of text_prose] by (simp add: sanitized_prose list_ex_iff)
  then have b: "clean_date_text (Some text_prose) = Inr None
      \<and> parse_date_text clock (Some text_prose) = Inr None"
    using clean_date_text_validates [of text_prose clock ?ps text_3_days_ago] by blast
  have "list_all pattern_ok ?ps"
    by (simp add: pattern_ok_def dot_date_pattern_def slash_pattern_def pw_english_pattern_def)
  then have c: "first_found ?ps text_3_days_ago = Inr (Some text_3_days_ago)"
    using clean_date_text_validates [of text_prose clock ?ps text_3_days_ago]
      english_shape_found
    by simp
  from a b c show ?thesis by simp
qed

text \<open>
  C6 as stated fails: the text "5 kotov" (five cats) holds none of the six shapes when the
  word after the day has to be a month name, and \<open>clean_date_text\<close> accepts it.
\<close>

theorem clean_date_text_validates_counterexample:
  "clean_date_text (Some text_five_cats) = Inr (Some text_five_cats)
   \<and> \<not> list_ex (\<lambda>p. contains_shape True p (sanitized text_five_cats)) claimed_date_patterns"
proof -
  have s: "sanitized text_five_cats = text_five_cats"
    by (simp add: text_five_cats_def sanitized_def strip_def icon_pattern_def ws_pattern_def
        search_eval)
  have "search_from False day_word_pattern text_five_cats
      = Some [[0x35], [0x20], [0x43a, 0x43e, 0x442, 0x43e, 0x432]]"
    by (simp add: text_five_cats_def day_word_pattern_def search_eval)
  then have "contains_shape True day_word_pattern text_five_cats"
    by (rule search_contains) simp
  moreover have "text_five_cats \<noteq> []" by (simp add: text_five_cats_def)
  ultimately have a: "clean_date_text (Some text_five_cats) = Inr (Some text_five_cats)"
    by (simp add: clean_date_text_eq s date_patterns_def)
  have 1: "search_from True month_date_pattern text_five_cats = None"
    by (simp add: text_five_cats_def month_date_pattern_def month_names_def month_mapping_def
        search_eval to_lower_def ignorecase_fixes_def)
  have 2: "search_from True dot_date_pattern text_five_cats = None"
    by (simp add: text_five_cats_def dot_date_pattern_def search_eval)
  have 3: "search_from True slash_pattern text_five_cats = None"
    by (simp add: text_five_cats_def slash_pattern_def search_eval)
  have 4: "search_from True iso_date_pattern text_five_cats = None"
    by (simp add: text_five_cats_def iso_date_pattern_def search_eval)
  have 5: "search_from True day_month_pattern text_five_cats = None"
    by (simp add: text_five_cats_def day_month_pattern_def month_names_def month_mapping_def
        search_eval to_lower_def ignorecase_fixes_def)
  have 6: "search_from True relative_pattern text_five_cats = None"
    by (simp add: text_five_cats_def relative_pattern_def search_eval to_lower_def
        ignorecase_fixes_def stem_chas_def stem_den_def stem_dnya_def stem_dney_def
        stem_minut_def stem_nedel_def)
  have "\<not> list_ex (\<lambda>p. contains_shape True p (sanitized text_five_cats)) claimed_date_patterns"
    by (simp add: s claimed_date_patterns_def contains_shape_code 1 2 3 4 5 6)
  with a show ?thesis by simp
qed

text \<open>
  C7.  The icon in front of a date is removed after the text has been stripped, so the
  white space that followed the icon stays: the cleaned form of the text "(alarm clock)
  27 oktyabrya 2025" begins with a space, and stripping it would still change it.
\<close>

theorem clean_date_text_keeps_space_after_icon:
  "clean_date_text (Some text_icon_date) = Inr (Some text_space_date)
   \<and> is_space (hd text_space_date)
   \<and> strip text_space_date \<noteq> text_space_date"
proof (intro conjI)
  have s: "sanitized text_icon_date = text_space_date"
    by (simp add: sanitized_def strip_def icon_pattern_def ws_pattern_def search_eval
        text_icon_date_def text_space_date_def)
  have t: "text_space_date = [0x20] @ [0x32, 0x37] @ [0x20]
       @ [0x43e, 0x43a, 0x442, 0x44f, 0x431, 0x440, 0x44f] @ [0x20] @ [0x32, 0x30, 0x32, 0x35] @ []"
    by (simp add: text_space_date_def)
  have "search_from False russian_pattern text_space_date
     = Some [[0x32, 0x37], [0x20], [0x43e, 0x43a, 0x442, 0x44f, 0x431, 0x440, 0x44f], [0x20],
        [0x32, 0x30, 0x32, 0x35]]"
    unfolding t by (rule russian_search) (simp_all add: is_digit_small is_space_def in_cyr)
  then have "contains_shape True word_date_pattern text_space_date"
    by (intro search_contains [where p = russian_pattern])
       (simp_all add: russian_pattern_def word_date_pattern_def)
  moreover have "text_icon_date \<noteq> []" by (simp add: text_icon_date_def)
  ultimately show "clean_date_text (Some text_icon_date) = Inr (Some text_space_date)"
    by (simp add: clean_date_text_eq s date_patterns_def)
  show "is_space (hd text_space_date)" by (simp add: text_space_date_def is_space_def)
  show "strip text_space_date \<noteq> text_space_date"
    by (simp add: text_space_date_def strip_def is_space_def)
qed

lemma parse_russian_date_body_invalid:
  assumes "search_from False russian_pattern s = Some [d, w1, tok, w2, y]"
    and "map_of month_mapping tok = Some mon"
    and "\<not> valid_date (int_of_digits y) mon (int_of_digits d)"
  shows "parse_russian_date_body s = Inl ValueError"
proof -
  from assms(1) have sh: "shape False russian_pattern [d, w1, tok, w2, y]"
    using search_from_Some by blast
  have g: "groups russian_pattern [d, w1, tok, w2, y] = [d, tok, y]"
    by (simp add: groups_def russian_pattern_def)
  show ?thesis
    using assms g russian_shapeD [OF sh] lower_cyr [of tok]
    by (simp add: parse_russian_date_body_def re_search_def pattern_ok_russian mk_datetime_def)
qed

lemma parse_relative_date_body_chain:
  assumes "list_ex is_digit s" and "length (first_integer s) \<le> 4300"
  shows "parse_relative_date_body now s =
     (if isin stem_den s \<or> isin stem_dnya s \<or> isin stem_dney s
        then bnd (timedelta_days (int_of_digits (first_integer s)))
               (\<lambda>td. bnd (dt_sub now td) (\<lambda>d. Inr (Some d)))
      else if isin stem_chas s \<or> isin stem_chasa s \<or> isin stem_chasov s
        then bnd (timedelta_hours (int_of_digits (first_integer s)))
               (\<lambda>td. bnd (dt_sub now td) (\<lambda>d. Inr (Some d)))
      else if isin stem_minut s
        then bnd (timedelta_minutes (int_of_digits (first_integer s)))
               (\<lambda>td. bnd (dt_sub now td) (\<lambda>d. Inr (Some d)))
      else if isin stem_nedel s
        then bnd (timedelta_weeks (int_of_digits (first_integer s)))
               (\<lambda>td. bnd (dt_sub now td) (\<lambda>d. Inr (Some d)))
      else Inr None)"
proof -
  from findall_first_integer [OF assms(1)] obtain ns
    where f: "re_findall_from False number_pattern s = first_integer s # ns"
      and n: "first_integer s \<noteq> []" "list_all is_digit (first_integer s)" by blast
  have i: "py_int (first_integer s) = Inr (int_of_digits (first_integer s))"
    using n assms(2) by (intro py_int_ok)
  show ?thesis
    by (simp add: parse_relative_date_body_def re_findall_def pattern_ok_number f i)
qed

lemma parse_relative_date_no_stem:
  assumes "\<not> isin stem_den t" "\<not> isin stem_dnya t" "\<not> isin stem_dney t"
    and "\<not> isin stem_chas t" "\<not> isin stem_chasa t" "\<not> isin stem_chasov t"
    and "\<not> isin stem_minut t" "\<not> isin stem_nedel t"
  shows "parse_relative_date now t = None"
proof (cases "re_findall_from False number_pattern t")
  case Nil
  then show ?thesis
    by (simp add: parse_relative_date_def parse_relative_date_body_def re_findall_def
        pattern_ok_number)
next
  case (Cons n0 ns)
  then show ?thesis using assms
    by (cases "py_int n0")
       (simp_all add: parse_relative_date_def parse_relative_date_body_def re_findall_def
        pattern_ok_number)
qed

lemma clean_date_text_nonempty:
  assumes "clean_date_text (Some s) = Inr (Some c)"
  shows "s \<noteq> []" and "c \<noteq> []"
proof -
  from assms have s: "s \<noteq> []"
    and ex: "list_ex (\<lambda>p. contains_shape True p (sanitized s)) date_patterns"
    and c: "c = sanitized s"
    by (auto simp: clean_date_text_eq split: if_splits)
  from ex obtain p where p: "p \<in> set date_patterns" "contains_shape True p c"
    unfolding c by (auto simp: list_ex_iff)
  show "s \<noteq> []" by (rule s)
  show "c \<noteq> []"
  proof
    assume "c = []"
    with p(2) have "contains_shape True p []" by simp
    moreover have "\<not> contains_shape True p []"
      using p(1) by (intro no_digit_no_shape) simp_all
    ultimately show False by simp
  qed
qed

text \<open>
  C8.  \<open>parse_date_text\<close> returns a result, a date or no date, for every input and never
  an exception: the patterns of \<open>clean_date_text\<close> compile, and each parser turns an
  exception of its body into its own failure.  After such a failure the dispatch goes on:
  when the Russian-month parser raises, the result is that of the relative parser or else
  of the standard parser; when the relative parser raises, it is that of the standard
  parser.
\<close>

theorem parse_date_text_total:
  "(\<exists>r. parse_date_text now x = Inr r)
   \<and> (parse_russian_date_body c = Inl e \<longrightarrow> parse_russian_date c = None)
   \<and> (parse_relative_date_body now c = Inl e \<longrightarrow> parse_relative_date now c = None)
   \<and> (parse_standard_date_body c = Inl e \<longrightarrow> parse_standard_date c = None)
   \<and> (clean_date_text (Some s) = Inr (Some c) \<and> parse_russian_date_body c = Inl e
        \<longrightarrow> parse_date_text now (Some s)
            = Inr (case parse_relative_date now c of
                     Some d \<Rightarrow> Some d | None \<Rightarrow> parse_standard_date c))
   \<and> (clean_date_text (Some s) = Inr (Some c) \<and> parse_russian_date c = None
        \<and> parse_relative_date_body now c = Inl e
        \<longrightarrow> parse_date_text now (Some s) = Inr (parse_standard_date c))"
proof (intro conjI impI)
  show "\<exists>r. parse_date_text now x = Inr r"
  proof (cases x)
    case None
    then show ?thesis by (simp add: parse_date_text_def)
  next
    case (Some s)
    then show ?thesis by (simp add: parse_date_text_eq)
  qed
next
  assume "parse_russian_date_body c = Inl e"
  then show "parse_russian_date c = None" by (simp add: parse_russian_date_def)
next
  assume "parse_relative_date_body now c = Inl e"
  then show "parse_relative_date now c = None" by (simp add: parse_relative_date_def)
next
  assume "parse_standard_date_body c = Inl e"
  then show "parse_standard_date c = None" by (simp add: parse_standard_date_def)
next
  assume a: "clean_date_text (Some s) = Inr (Some c) \<and> parse_russian_date_body c = Inl e"
  then have "s \<noteq> []" "c \<noteq> []" by (auto dest: clean_date_text_nonempty)
  with a show "parse_date_text now (Some s)
      = Inr (case parse_relative_date now c of
               Some d \<Rightarrow> Some d | None \<Rightarrow> parse_standard_date c)"
    by (simp add: parse_date_text_def parse_russian_date_def split: option.splits)
next
  assume a: "clean_date_text (Some s) = Inr (Some c) \<and> parse_russian_date c = None
        \<and> parse_relative_date_body now c = Inl e"
  then have "s \<noteq> []" "c \<noteq> []" by (auto dest: clean_date_text_nonempty)
  with a show "parse_date_text now (Some s) = Inr (parse_standard_date c)"
    by (simp add: parse_date_text_def parse_relative_date_def split: option.splits)
qed

lemma int_of_digits_01: "int_of_digits [0x30, 0x31] = 1"
  by (simp add: int_of_digits_def digit_val_ascii)

lemma int_of_digits_03: "int_of_digits [0x30, 0x33] = 3"
  by (simp add: int_of_digits_def digit_val_ascii)

lemma march_1_valid: "valid_date 2025 3 1"
  by (simp add: valid_date_def days_in_month_def)

lemma sanitized_s8: "sanitized text_invalid_then_dot = text_invalid_then_dot"
  by (simp add: text_invalid_then_dot_def sanitized_def strip_def icon_pattern_def ws_pattern_def
      search_eval)

lemma search_russian_s8:
  "search_from False russian_pattern text_invalid_then_dot
   = Some [[0x33, 0x31], [0x20], [0x444, 0x435, 0x432, 0x440, 0x430, 0x43b, 0x44f], [0x20],
      [0x32, 0x30, 0x32, 0x35]]"
  using russian_search [of "[]" "[0x33, 0x31]" "[0x20]"
      "[0x444, 0x435, 0x432, 0x440, 0x430, 0x43b, 0x44f]" "[0x20]" "[0x32, 0x30, 0x32, 0x35]"
      "[0x20, 0x30, 0x31, 0x2e, 0x30, 0x33, 0x2e, 0x32, 0x30, 0x32, 0x35]"]
  by (simp add: text_invalid_then_dot_def is_digit_small is_space_def in_cyr)

lemma search_dot_s8:
  "search_from False dot_pattern text_invalid_then_dot
   = Some [[0x30, 0x31], [0x2e], [0x30, 0x33], [0x2e], [0x32, 0x30, 0x32, 0x35]]"
  by (simp add: text_invalid_then_dot_def dot_pattern_def search_eval)

lemma relative_s8: "parse_relative_date now text_invalid_then_dot = None"
  by (rule parse_relative_date_no_stem)
     (simp_all add: text_invalid_then_dot_def stem_den_def stem_dnya_def stem_dney_def
       stem_chas_def stem_chasa_def stem_chasov_def stem_minut_def stem_nedel_def)

lemma sanitized_s9: "sanitized text_overflow_then_dot = text_overflow_then_dot"
  by (simp add: text_overflow_then_dot_def sanitized_def strip_def icon_pattern_def ws_pattern_def
      search_eval)

lemma search_russian_s9: "search_from False russian_pattern text_overflow_then_dot = None"
  by (simp add: text_overflow_then_dot_def russian_pattern_def search_eval)

lemma search_dot_s9:
  "search_from False dot_pattern text_overflow_then_dot
   = Some [[0x30, 0x31], [0x2e], [0x30, 0x33], [0x2e], [0x32, 0x30, 0x32, 0x35]]"
  by (simp add: text_overflow_then_dot_def dot_pattern_def search_eval)

lemma relative_body_s9: "parse_relative_date_body now text_overflow_then_dot = Inl OverflowError"
proof -
  have f: "first_integer text_overflow_then_dot
      = [0x39, 0x39, 0x39, 0x39, 0x39, 0x39, 0x39, 0x39, 0x39, 0x39]"
    by (simp add: text_overflow_then_dot_def first_integer_def is_digit_small)
  have i: "int_of_digits [0x39, 0x39, 0x39, 0x39, 0x39, 0x39, 0x39, 0x39, 0x39, 0x39] = 9999999999"
    by (simp add: int_of_digits_def digit_val_ascii)
  have st: "isin stem_dney text_overflow_then_dot"
    by (simp add: text_overflow_then_dot_def stem_dney_def)
  have "list_ex is_digit text_overflow_then_dot"
    by (simp add: text_overflow_then_dot_def is_digit_small)
  then show ?thesis
    using parse_relative_date_body_chain [of text_overflow_then_dot now] f i st
    by (simp add: timedelta_days_def mk_timedelta_def)
qed

theorem parse_date_text_total_witness:
  "parse_date_text clock (Some text_invalid_then_dot) = Inr (Some date_1_marta)
   \<and> parse_date_text clock (Some text_overflow_then_dot) = Inr (Some date_1_marta)"
proof (intro conjI)
  let ?s8 = text_invalid_then_dot and ?s9 = text_overflow_then_dot
  have "contains_shape True word_date_pattern ?s8"
    using search_russian_s8
    by (rule search_contains) (simp add: russian_pattern_def word_date_pattern_def)
  moreover have ne8: "?s8 \<noteq> []" by (simp add: text_invalid_then_dot_def)
  ultimately have c8: "clean_date_text (Some ?s8) = Inr (Some ?s8)"
    by (simp add: clean_date_text_eq sanitized_s8 date_patterns_def)
  have "\<not> valid_date 2025 2 31" by (rule february_31_invalid)
  then have b8: "parse_russian_date_body ?s8 = Inl ValueError"
    using parse_russian_date_body_invalid [OF search_russian_s8, of 2]
    by (simp add: month_mapping_def int_of_digits_31 int_of_digits_2025)
  have st8: "parse_standard_date ?s8 = Some date_1_marta"
    using parse_standard_date_of_dot [OF search_dot_s8] march_1_valid
    by (simp add: int_of_digits_01 int_of_digits_03 int_of_digits_2025 date_1_marta_def)
  show "parse_date_text clock (Some ?s8) = Inr (Some date_1_marta)"
    using parse_date_text_total [of clock "Some ?s8" ?s8 ValueError ?s8]
      c8 b8 st8 relative_s8 [of clock]
    by simp
  have "contains_shape True dot_date_pattern ?s9"
    using search_dot_s9
    by (rule search_contains) (simp add: dot_pattern_def dot_date_pattern_def)
  moreover have ne9: "?s9 \<noteq> []" by (simp add: text_overflow_then_dot_def)
  ultimately have c9: "clean_date_text (Some ?s9) = Inr (Some ?s9)"
    by (simp add: clean_date_text_eq sanitized_s9 date_patterns_def)
  have r9: "parse_russian_date ?s9 = None"
    using search_russian_s9 by (rule parse_russian_date_no_match)
  have st9: "parse_standard_date ?s9 = Some date_1_marta"
    using parse_standard_date_of_dot [OF search_dot_s9] march_1_valid
    by (simp add: int_of_digits_01 int_of_digits_03 int_of_digits_2025 date_1_marta_def)
  show "parse_date_text clock (Some ?s9) = Inr (Some date_1_marta)"
    using parse_date_text_total [of clock "Some ?s9" ?s9 OverflowError ?s9]
      c9 r9 st9 relative_body_s9 [of clock]
    by simp
qed

lemma sanitized_Nil: "sanitized [] = []"
  by (simp add: sanitized_def strip_def icon_pattern_def ws_pattern_def search_eval)

lemma slash_nonempty:
  assumes "contains_shape True slash_pattern t"
  shows "t \<noteq> []"
proof -
  from assms obtain pre ms post where t: "t = pre @ concat ms @ post"
    and sh: "shape True slash_pattern ms" by (auto simp: contains_shape_def)
  from sh obtain m ms' where "ms = m # ms'" "1 \<le> length m"
    by (auto simp: shape_def slash_pattern_def list_all2_Cons1)
  with t show ?thesis by auto
qed

lemma month_token_shape:
  assumes "shape False russian_pattern [d, w1, tok, w2, y]"
    and "map_of month_mapping tok = Some mon"
  shows "shape False month_date_pattern [d, w1, tok, w2, y]"
proof -
  from assms(2) have "(tok, mon) \<in> set month_mapping" by (rule map_of_SomeD)
  then have "tok \<in> set month_names" by (force simp: month_names_def)
  moreover have "list_all2 (ch_eq False) tok tok" by (simp add: list_all2_same ch_eq_def)
  ultimately have "atom_ok False (Alt month_names) tok" by (auto simp: list_ex_iff)
  with assms(1) show ?thesis by (simp add: shape_def russian_pattern_def month_date_pattern_def)
qed

lemma no_month_date_no_parse:
  assumes "\<not> contains_shape False month_date_pattern t"
  shows "parse_russian_date t = None"
proof (cases "search_from False russian_pattern t")
  case None
  then show ?thesis by (rule parse_russian_date_no_match)
next
  case (Some ms)
  then obtain pre post where sh: "shape False russian_pattern ms"
    and t: "t = pre @ concat ms @ post" using search_from_Some by blast
  from sh obtain d w1 tok w2 y where ms: "ms = [d, w1, tok, w2, y]"
    by (auto simp: shape_def russian_pattern_def list_all2_Cons1)
  show ?thesis
  proof (cases "map_of month_mapping tok")
    case None
    with Some ms show ?thesis by (simp add: parse_russian_date_of_search)
  next
    case (Some mon)
    with sh ms have "shape False month_date_pattern ms" by (simp add: month_token_shape)
    with t assms show ?thesis unfolding contains_shape_def by blast
  qed
qed

text \<open>
  C10.  A text whose sanitized form holds a \<^verbatim>\<open>D/M/YYYY\<close> date, but no day, month name
  and year, no \<^verbatim>\<open>D.M.YYYY\<close>, no \<^verbatim>\<open>YYYY-M-D\<close> and none of the relative-unit stems, is
  accepted by \<open>clean_date_text\<close>, yet each of the three parsers fails on it and
  \<open>parse_date_text\<close> returns no date.
\<close>

theorem slash_date_never_parses:
  assumes "contains_shape True slash_pattern (sanitized s)"
    and "\<not> contains_shape False month_date_pattern (sanitized s)"
    and "\<not> contains_shape False dot_pattern (sanitized s)"
    and "\<not> contains_shape False iso_pattern (sanitized s)"
    and "\<not> isin stem_den (sanitized s)" "\<not> isin stem_dnya (sanitized s)"
    and "\<not> isin stem_dney (sanitized s)" "\<not> isin stem_chas (sanitized s)"
    and "\<not> isin stem_chasa (sanitized s)" "\<not> isin stem_chasov (sanitized s)"
    and "\<not> isin stem_minut (sanitized s)" "\<not> isin stem_nedel (sanitized s)"
  shows "clean_date_text (Some s) = Inr (Some (sanitized s))
     \<and> parse_russian_date (sanitized s) = None
     \<and> parse_relative_date now (sanitized s) = None
     \<and> parse_standard_date (sanitized s) = None
     \<and> parse_date_text now (Some s) = Inr None"
proof -
  have t0: "sanitized s \<noteq> []" using assms(1) by (rule slash_nonempty)
  then have s0: "s \<noteq> []" using sanitized_Nil by auto
  have ex: "list_ex (\<lambda>p. contains_shape True p (sanitized s)) date_patterns"
    using assms(1) by (simp add: date_patterns_def)
  have c: "clean_date_text (Some s) = Inr (Some (sanitized s))"
    using s0 ex by (simp add: clean_date_text_eq)
  have r: "parse_russian_date (sanitized s) = None"
    using assms(2) by (rule no_month_date_no_parse)
  have rel: "parse_relative_date now (sanitized s) = None"
    by (intro parse_relative_date_no_stem assms)
  have st: "parse_standard_date (sanitized s) = None"
    using assms(3,4) by (intro parse_standard_date_no_match) (simp_all add: search_from_None_iff)
  have "parse_date_text now (Some s) = Inr None"
    using s0 t0 ex r rel st by (simp add: parse_date_text_eq)
  with c r rel st show ?thesis by simp
qed

lemma sanitized_slash: "sanitized text_slash = text_slash"
  by (simp add: text_slash_def sanitized_def strip_def icon_pattern_def ws_pattern_def search_eval)

lemma slash_found: "contains_shape True slash_pattern text_slash"
  by (simp add: contains_shape_code text_slash_def slash_pattern_def search_eval to_lower_def
      ignorecase_fixes_def)

lemma slash_no_month: "\<not> contains_shape False month_date_pattern text_slash"
  by (simp add: contains_shape_code text_slash_def month_date_pattern_def search_eval)

lemma slash_no_dot: "\<not> contains_shape False dot_pattern text_slash"
  by (simp add: contains_shape_code text_slash_def dot_pattern_def search_eval)

lemma slash_no_iso: "\<not> contains_shape False iso_pattern text_slash"
  by (simp add: contains_shape_code text_slash_def iso_pattern_def search_eval)

theorem slash_date_never_parses_witness:
  "clean_date_text (Some text_slash) = Inr (Some text_slash)
   \<and> parse_russian_date text_slash = None
   \<and> parse_relative_date clock text_slash = None
   \<and> parse_standard_date text_slash = None
   \<and> parse_date_text clock (Some text_slash) = Inr None"
proof -
  have "\<not> isin stem_den text_slash" "\<not> isin stem_dnya text_slash"
    "\<not> isin stem_dney text_slash" "\<not> isin stem_chas text_slash"
    "\<not> isin stem_chasa text_slash" "\<not> isin stem_chasov text_slash"
    "\<not> isin stem_minut text_slash" "\<not> isin stem_nedel text_slash"
    by (simp_all add: text_slash_def stem_den_def stem_dnya_def stem_dney_def stem_chas_def
        stem_chasa_def stem_chasov_def stem_minut_def stem_nedel_def)
  then show ?thesis
    using slash_date_never_parses [of text_slash clock] slash_found slash_no_month
      slash_no_dot slash_no_iso
    by (simp add: sanitized_slash)
qed

text \<open>
  C9, as amended.  The records of bankinform and plusworld have exactly the six fields
  title, url, search_term, description, article_date and scraped_at; the first four are
  strings, article_date is the ISO-8601 text of the date or null, scraped_at is the
  ISO-8601 text of the clock.  The record of rb has no scraped_at, the record of bankcnews
  has neither article_date nor scraped_at, and the record of mckinsey has only title, url
  and description.
\<close>

theorem record_shapes:
  "parse_article title url description article_date now =
     [(''title'', PStr title), (''url'', PStr url),
      (''search_term'', PStr [0x62, 0x61, 0x6e, 0x6b, 0x69, 0x6e, 0x66, 0x6f, 0x72, 0x6d, 0x2d,
                              0x66, 0x69, 0x6e, 0x74, 0x65, 0x63, 0x68]),
      (''description'', PStr description),
      (''article_date'', case article_date of Some d \<Rightarrow> PStr (isoformat d) | None \<Rightarrow> PNone),
      (''scraped_at'', PStr (isoformat now))]
   \<and> map fst (parse_article title url description article_date now) = six_fields
   \<and> pw_parse_article title url search_term description article_date now =
     [(''title'', PStr title), (''url'', PStr url), (''search_term'', PStr search_term),
      (''description'', PStr description),
      (''article_date'', case article_date of Some d \<Rightarrow> PStr (isoformat d) | None \<Rightarrow> PNone),
      (''scraped_at'', PStr (isoformat now))]
   \<and> map fst (pw_parse_article title url search_term description article_date now) = six_fields
   \<and> map fst (rb_parse_article title url search_term description date_elem)
       = [''title'', ''url'', ''search_term'', ''description'', ''article_date'']
   \<and> map fst (cnews_parse_article title url search_term description)
       = [''title'', ''url'', ''search_term'', ''description'']
   \<and> map fst (mckinsey_parse title url description) = [''title'', ''url'', ''description'']"
  by (simp add: parse_article_def pw_parse_article_def rb_parse_article_def
      cnews_parse_article_def mckinsey_parse_def six_fields_def iso_or_none_def Let_def)

lemma upt_0_2: "[0..<2] = [0, 1 :: nat]"
  by (simp add: eval_nat_numeral)

lemma upt_0_4: "[0..<4] = [0, 1, 2, 3 :: nat]"
  by (simp add: eval_nat_numeral)

lemma isoformat_27_oktyabrya: "isoformat date_27_oktyabrya = text_iso_27_oktyabrya"
  by (simp add: isoformat_def pad_def upt_0_2 upt_0_4 date_27_oktyabrya_def
      text_iso_27_oktyabrya_def)

theorem record_shapes_witness:
  "map_of (parse_article [0x74] [0x75] [0x64] (Some date_27_oktyabrya) clock) ''article_date''
    = Some (PStr text_iso_27_oktyabrya)
   \<and> map_of (parse_article [0x74] [0x75] [0x64] None clock) ''article_date'' = Some PNone"
  using record_shapes [of "[0x74]" "[0x75]" "[0x64]" "Some date_27_oktyabrya" clock]
    record_shapes [of "[0x74]" "[0x75]" "[0x64]" None clock]
  by (simp add: isoformat_27_oktyabrya)

text \<open>
  C9 as stated fails for rb, bankcnews and mckinsey: their records do not have the six
  fields.
\<close>

theorem record_shapes_counterexample:
  "map fst (rb_parse_article [0x74] [0x75] [0x73] [0x64] None) \<noteq> six_fields
   \<and> map fst (cnews_parse_article [0x74] [0x75] [0x73] [0x64]) \<noteq> six_fields
   \<and> map fst (mckinsey_parse [0x74] [0x75] [0x64]) \<noteq> six_fields"
  by (simp add: rb_parse_article_def cnews_parse_article_def mckinsey_parse_def six_fields_def)

lemma lex_le_refl: "lex_le xs xs"
  by (induction xs) simp_all

lemma dt_ge_refl: "dt_ge d d"
  by (simp add: dt_ge_def lex_le_refl)

lemma follow_articles_iff:
  "r \<in> set (follow_articles thr st as) \<longleftrightarrow>
     (\<exists>a\<in>set as. is_recent (art_date a) thr \<and> r = Request (art_url a) (art_title a) (art_date a) st)"
  by (induction as) auto

lemma parse_russian_date_Nil: "parse_russian_date [] = None"
  by (rule parse_russian_date_no_match) (simp add: russian_pattern_def search_eval)

lemma rb_article_date_Nil: "rb_article_date [] = None"
  by (simp add: rb_article_date_def strip_def parse_russian_date_Nil)

lemma add_link_set:
  "set (add_link clean_url href links) =
     set links \<union> {u. \<exists>l. href = Some l \<and> l \<noteq> [] \<and> clean_url l = Some u \<and> u \<noteq> []}"
  by (auto simp: add_link_def split: option.splits)

lemma rb_dated_links_set:
  "set (rb_dated_links clean_url thr items links) =
     set links \<union>
     {u. \<exists>it\<in>set items. \<exists>de d l. item_date it = Some de \<and> rb_article_date de = Some d
        \<and> dt_ge d thr \<and> item_link it = Some l \<and> l \<noteq> [] \<and> clean_url l = Some u \<and> u \<noteq> []}"
proof (induction items arbitrary: links)
  case Nil
  then show ?case by simp
next
  case (Cons item items)
  show ?case
    unfolding rb_dated_links.simps Cons.IH
    by (auto simp: add_link_set rb_article_date_Nil split: option.splits)
qed

lemma rb_all_links_set:
  "set (rb_all_links clean_url hrefs links) =
     set links \<union> {u. \<exists>l. Some l \<in> set hrefs \<and> l \<noteq> [] \<and> clean_url l = Some u \<and> u \<noteq> []}"
  by (induction hrefs arbitrary: links) (auto simp: add_link_set)

text \<open>
  C1, as amended.  The accept condition is: no date, or a date not older than the
  threshold, with equality accepted.  The listing handlers of bankinform and plusworld
  request exactly the articles (for plusworld, of the part of the page it looks at) that
  meet this condition, unknown dates included.  The handler of rb differs: a link enters
  its dated list exactly when the date of its item was parsed and is not older than the
  threshold; the title links of the page are collected without any test of a date; and
  the handler requests the first fifteen links of the dated list or, only when the dated
  list is empty, that is when no item qualifies, of the list of all title links.
\<close>

theorem recency_filter:
  "is_recent None thr
   \<and> is_recent (Some d) thr = dt_ge d thr
   \<and> is_recent (Some thr) thr
   \<and> (r \<in> set (parse_article_list thr articles) \<longleftrightarrow>
        (\<exists>a\<in>set articles. is_recent (art_date a) thr
           \<and> r = Request (art_url a) (art_title a) (art_date a) None))
   \<and> (r \<in> set (pw_parse_article_list thr page st articles) \<longleftrightarrow>
        (\<exists>a\<in>set (take 15 (if page = 1 \<and> 7 < length articles then drop 7 articles
                           else articles)).
           is_recent (art_date a) thr
           \<and> r = Request (art_url a) (art_title a) (art_date a) (Some st)))
   \<and> (u \<in> set (rb_dated_links clean_url thr items []) \<longleftrightarrow>
        (\<exists>it\<in>set items. \<exists>de d l. item_date it = Some de \<and> rb_article_date de = Some d
           \<and> dt_ge d thr \<and> item_link it = Some l \<and> l \<noteq> [] \<and> clean_url l = Some u
           \<and> u \<noteq> []))
   \<and> (u \<in> set (rb_all_links clean_url title_links []) \<longleftrightarrow>
        (\<exists>l. Some l \<in> set title_links \<and> l \<noteq> [] \<and> clean_url l = Some u \<and> u \<noteq> []))
   \<and> rb_parse_search_results clean_url thr st items title_links =
        map (\<lambda>u. Request u [] None (Some st))
          (take 15 (if rb_dated_links clean_url thr items [] = []
                    then rb_all_links clean_url title_links []
                    else rb_dated_links clean_url thr items []))
   \<and> (rb_dated_links clean_url thr items [] = [] \<longleftrightarrow>
        \<not> (\<exists>it\<in>set items. \<exists>de d l u. item_date it = Some de \<and> rb_article_date de = Some d
           \<and> dt_ge d thr \<and> item_link it = Some l \<and> l \<noteq> [] \<and> clean_url l = Some u
           \<and> u \<noteq> []))"
proof (intro conjI)
  show "is_recent None thr" by (simp add: is_recent_def)
  show "is_recent (Some d) thr = dt_ge d thr" by (simp add: is_recent_def)
  show "is_recent (Some thr) thr" by (simp add: is_recent_def dt_ge_refl)
  show "r \<in> set (parse_article_list thr articles) \<longleftrightarrow>
        (\<exists>a\<in>set articles. is_recent (art_date a) thr
           \<and> r = Request (art_url a) (art_title a) (art_date a) None)"
    by (simp add: parse_article_list_def follow_articles_iff)
  show "r \<in> set (pw_parse_article_list thr page st articles) \<longleftrightarrow>
        (\<exists>a\<in>set (take 15 (if page = 1 \<and> 7 < length articles then drop 7 articles
                           else articles)).
           is_recent (art_date a) thr
           \<and> r = Request (art_url a) (art_title a) (art_date a) (Some st))"
    by (simp add: pw_parse_article_list_def follow_articles_iff Let_def)
  show "u \<in> set (rb_dated_links clean_url thr items []) \<longleftrightarrow>
        (\<exists>it\<in>set items. \<exists>de d l. item_date it = Some de \<and> rb_article_date de = Some d
           \<and> dt_ge d thr \<and> item_link it = Some l \<and> l \<noteq> [] \<and> clean_url l = Some u
           \<and> u \<noteq> [])"
    by (simp add: rb_dated_links_set)
  show "u \<in> set (rb_all_links clean_url title_links []) \<longleftrightarrow>
        (\<exists>l. Some l \<in> set title_links \<and> l \<noteq> [] \<and> clean_url l = Some u \<and> u \<noteq> [])"
    by (simp add: rb_all_links_set)
  show "rb_parse_search_results clean_url thr st items title_links =
        map (\<lambda>u. Request u [] None (Some st))
          (take 15 (if rb_dated_links clean_url thr items [] = []
                    then rb_all_links clean_url title_links []
                    else rb_dated_links clean_url thr items []))"
    by (simp add: rb_parse_search_results_def Let_def)
  have "rb_dated_links clean_url thr items [] = []
      \<longleftrightarrow> (\<forall>u. u \<notin> set (rb_dated_links clean_url thr items []))"
    by (cases "rb_dated_links clean_url thr items []") auto
  also have "\<dots> \<longleftrightarrow>
        \<not> (\<exists>it\<in>set items. \<exists>de d l u. item_date it = Some de \<and> rb_article_date de = Some d
           \<and> dt_ge d thr \<and> item_link it = Some l \<and> l \<noteq> [] \<and> clean_url l = Some u
           \<and> u \<noteq> [])"
    unfolding rb_dated_links_set by (simp; blast)
  finally show "rb_dated_links clean_url thr items [] = [] \<longleftrightarrow>
        \<not> (\<exists>it\<in>set items. \<exists>de d l u. item_date it = Some de \<and> rb_article_date de = Some d
           \<and> dt_ge d thr \<and> item_link it = Some l \<and> l \<noteq> [] \<and> clean_url l = Some u
           \<and> u \<noteq> [])" .
qed

lemma rb_date_27_oktyabrya: "rb_article_date text_27_oktyabrya = Some date_27_oktyabrya"
proof -
  have "strip text_27_oktyabrya = text_27_oktyabrya"
    by (simp add: text_27_oktyabrya_def strip_def is_space_def)
  moreover have "parse_russian_date text_27_oktyabrya = Some date_27_oktyabrya"
    using parse_russian_date_of_search [OF search_27_oktyabrya]
    by (simp add: month_mapping_def valid_date_def days_in_month_def int_of_digits_27
        int_of_digits_2025 date_27_oktyabrya_def)
  ultimately show ?thesis by (simp add: rb_article_date_def)
qed

lemma rb_date_yesterday: "rb_article_date text_yesterday = None"
proof -
  have "strip text_yesterday = text_yesterday"
    by (simp add: text_yesterday_def strip_def is_space_def)
  moreover have "search_from False russian_pattern text_yesterday = None"
    by (simp add: text_yesterday_def russian_pattern_def search_eval)
  ultimately show ?thesis by (simp add: rb_article_date_def parse_russian_date_no_match)
qed

lemma rb_dated_links_example:
  "rb_dated_links Some threshold_example rb_items_example [] = [[0x61]]"
proof -
  have "text_27_oktyabrya \<noteq> []" "text_yesterday \<noteq> []"
    by (simp_all add: text_27_oktyabrya_def text_yesterday_def)
  then show ?thesis
    by (simp add: rb_items_example_def rb_date_27_oktyabrya rb_date_yesterday add_link_def
        dt_ge_def dt_key_def threshold_example_def date_27_oktyabrya_def)
qed

lemma rb_dated_links_undated:
  "rb_dated_links Some threshold_example
      [\<lparr>item_date = Some text_yesterday, item_link = Some [0x62]\<rparr>] [] = []"
proof -
  have "text_yesterday \<noteq> []" by (simp add: text_yesterday_def)
  then show ?thesis by (simp add: rb_date_yesterday)
qed

theorem recency_filter_witness:
  "Request [0x61] [0x74] None None
     \<in> set (parse_article_list threshold_example
         [\<lparr>art_url = [0x61], art_title = [0x74], art_date = None\<rparr>,
          \<lparr>art_url = [0x62], art_title = [0x74], art_date = Some threshold_example\<rparr>])
   \<and> Request [0x62] [0x74] (Some threshold_example) None
     \<in> set (parse_article_list threshold_example
         [\<lparr>art_url = [0x61], art_title = [0x74], art_date = None\<rparr>,
          \<lparr>art_url = [0x62], art_title = [0x74], art_date = Some threshold_example\<rparr>])
   \<and> rb_parse_search_results Some threshold_example [0x73] rb_items_example
        [Some [0x61], Some [0x62]]
      = [Request [0x61] [] None (Some [0x73])]
   \<and> rb_parse_search_results Some threshold_example [0x73]
        [\<lparr>item_date = Some text_yesterday, item_link = Some [0x62]\<rparr>]
        [Some [0x61], Some [0x62]]
      = [Request [0x61] [] None (Some [0x73]), Request [0x62] [] None (Some [0x73])]"
proof (intro conjI)
  let ?as = "[\<lparr>art_url = [0x61], art_title = [0x74], art_date = None\<rparr>,
          \<lparr>art_url = [0x62], art_title = [0x74], art_date = Some threshold_example\<rparr>]"
  let ?undated = "[\<lparr>item_date = Some text_yesterday, item_link = Some [0x62]\<rparr>]"
  note rf = recency_filter [where thr = threshold_example and d = threshold_example
      and articles = ?as and page = 1 and st = "[0x73]" and u = "[0x61]"
      and clean_url = Some and title_links = "[Some [0x61], Some [0x62]]"]
  show "Request [0x61] [0x74] None None \<in> set (parse_article_list threshold_example ?as)"
    using rf [where r = "Request [0x61] [0x74] None None" and items = rb_items_example]
    by simp
  show "Request [0x62] [0x74] (Some threshold_example) None
      \<in> set (parse_article_list threshold_example ?as)"
    using rf [where r = "Request [0x62] [0x74] (Some threshold_example) None"
        and items = rb_items_example]
    by (simp add: dt_ge_refl)
  show "rb_parse_search_results Some threshold_example [0x73] rb_items_example
        [Some [0x61], Some [0x62]]
      = [Request [0x61] [] None (Some [0x73])]"
    using rf [where r = "Request [0x61] [0x74] None None" and items = rb_items_example]
    by (simp add: rb_dated_links_example)
  show "rb_parse_search_results Some threshold_example [0x73] ?undated
        [Some [0x61], Some [0x62]]
      = [Request [0x61] [] None (Some [0x73]), Request [0x62] [] None (Some [0x73])]"
  proof -
    have "rb_parse_search_results Some threshold_example [0x73] ?undated
          [Some [0x61], Some [0x62]]
        = map (\<lambda>u. Request u [] None (Some [0x73]))
            (take 15 (if rb_dated_links Some threshold_example ?undated [] = []
                      then rb_all_links Some [Some [0x61], Some [0x62]] []
                      else rb_dated_links Some threshold_example ?undated []))"
      using rf [where r = "Request [0x61] [0x74] None None" and items = ?undated]
      by (elim conjE)
    then show ?thesis
      unfolding rb_dated_links_undated by (simp add: add_link_def)
  qed
qed

text \<open>
  C1 as stated fails for rb: the second item of the example page has an unknown date,
  which the accept condition lets pass, but the handler does not request it.
\<close>

theorem recency_filter_counterexample:
  "is_recent (rb_article_date text_yesterday) threshold_example
   \<and> Request [0x62] [] None (Some [0x73])
       \<notin> set (rb_parse_search_results Some threshold_example [0x73] rb_items_example
                [Some [0x61], Some [0x62]])"
  by (simp add: rb_date_yesterday is_recent_def rb_parse_search_results_def
      rb_dated_links_example)

lemma pw_first_pattern_bad: "\<not> pattern_ok (hd pw_date_patterns)"
  by (simp add: pw_date_patterns_def pw_word_date_pattern_def pattern_ok_def pw_class_def)

lemma pw_russian_pattern_bad: "\<not> pattern_ok pw_russian_pattern"
  by (simp add: pw_russian_pattern_def pattern_ok_def pw_class_def)

lemma pw_parse_russian_date_None: "pw_parse_russian_date t = None"
  by (simp add: pw_parse_russian_date_def pw_parse_russian_date_body_def re_search_def
      pw_russian_pattern_bad)

lemma pw_first_found: "first_found pw_date_patterns t = Inl ReError"
proof -
  obtain p ps where p: "pw_date_patterns = p # ps" by (simp add: pw_date_patterns_def)
  have "\<not> pattern_ok p" using pw_first_pattern_bad unfolding p by simp
  then show ?thesis unfolding p by (simp add: re_search_def)
qed

lemma pw_clean_date_text_raises: "s \<noteq> [] \<Longrightarrow> pw_clean_date_text (Some s) = Inl ReError"
  by (simp add: pw_clean_date_text_def re_sub_def pattern_ok_ws pw_first_found
      pattern_ok_def pw_icon_pattern_def)

lemma pw_parse_date_text_raises: "s \<noteq> [] \<Longrightarrow> pw_parse_date_text now (Some s) = Inl ReError"
  by (simp add: pw_parse_date_text_def pw_parse_date_text_with_def pw_clean_date_text_raises)

lemma empty_no_shape: "p \<in> set date_patterns \<Longrightarrow> \<not> contains_shape True p []"
  using no_digit_no_shape [of "[]" p] by simp

text \<open>
  C4, as amended.  Each spider fixes its own order of strategies in its code.  The
  dispatcher of bankinform cleans the text and returns the first success of the
  Russian-month parser, the relative parser and the numeric parser, in this order.  The
  dispatcher of plusworld, whatever the three methods it calls do, cleans the text and
  returns the first success of two strategies, the Russian-month parser and then the
  relative parser; it has no numeric one.  rb calls the Russian-month parser alone, on
  the stripped text.
\<close>

theorem dispatch_orders:
  "parse_date_text now (Some s) =
     bnd (clean_date_text (Some s)) (\<lambda>c. Inr (case c of
        None \<Rightarrow> None
      | Some t \<Rightarrow>
          spec_dispatch [parse_russian_date, parse_relative_date now, parse_standard_date] t))
   \<and> pw_parse_date_text now x =
     pw_parse_date_text_with pw_clean_date_text pw_parse_russian_date
       (pw_parse_relative_date now) x
   \<and> pw_parse_date_text_with clean russian relative None = Inr None
   \<and> pw_parse_date_text_with clean russian relative (Some s) =
     (if s = [] then Inr None
      else bnd (clean (Some s)) (\<lambda>c. Inr (case c of
        None \<Rightarrow> None
      | Some t \<Rightarrow> if t = [] then None else spec_dispatch [russian, relative] t)))
   \<and> rb_article_date de = spec_dispatch [parse_russian_date] (strip de)"
proof (intro conjI)
  show "parse_date_text now (Some s) =
     bnd (clean_date_text (Some s)) (\<lambda>c. Inr (case c of
        None \<Rightarrow> None
      | Some t \<Rightarrow>
          spec_dispatch [parse_russian_date, parse_relative_date now, parse_standard_date] t))"
  proof (cases "s \<noteq> [] \<and> list_ex (\<lambda>p. contains_shape True p (sanitized s)) date_patterns")
    case True
    then have "sanitized s \<noteq> []" using empty_no_shape by (auto simp: list_ex_iff)
    with True show ?thesis
      by (simp add: parse_date_text_eq clean_date_text_eq split: option.splits)
  next
    case False
    then show ?thesis by (auto simp: parse_date_text_eq clean_date_text_eq)
  qed
  show "pw_parse_date_text now x =
     pw_parse_date_text_with pw_clean_date_text pw_parse_russian_date
       (pw_parse_relative_date now) x"
    by (simp add: pw_parse_date_text_def)
  show "pw_parse_date_text_with clean russian relative None = Inr None"
    by (simp add: pw_parse_date_text_with_def)
  show "pw_parse_date_text_with clean russian relative (Some s) =
     (if s = [] then Inr None
      else bnd (clean (Some s)) (\<lambda>c. Inr (case c of
        None \<Rightarrow> None
      | Some t \<Rightarrow> if t = [] then None else spec_dispatch [russian, relative] t)))"
  proof (cases "clean (Some s)")
    case (Inl e)
    then show ?thesis by (simp add: pw_parse_date_text_with_def)
  next
    case (Inr c)
    then show ?thesis by (simp add: pw_parse_date_text_with_def split: option.splits)
  qed
  show "rb_article_date de = spec_dispatch [parse_russian_date] (strip de)"
    by (simp add: rb_article_date_def split: option.splits)
qed

lemma days_then_dot_nonempty: "text_days_then_dot \<noteq> []"
  by (simp add: text_days_then_dot_def)

lemma sanitized_days_then_dot: "sanitized text_days_then_dot = text_days_then_dot"
  by (simp add: text_days_then_dot_def sanitized_def strip_def icon_pattern_def ws_pattern_def
      search_eval)

lemma strip_days_then_dot: "strip text_days_then_dot = text_days_then_dot"
  by (simp add: text_days_then_dot_def strip_def is_space_def)

lemma russian_days_then_dot: "parse_russian_date text_days_then_dot = None"
  by (rule parse_russian_date_no_match)
     (simp add: text_days_then_dot_def russian_pattern_def search_eval)

lemma search_dot_days_then_dot:
  "search_from False dot_pattern text_days_then_dot
   = Some [[0x32, 0x37], [0x2e], [0x31, 0x30], [0x2e], [0x32, 0x30, 0x32, 0x35]]"
  by (simp add: text_days_then_dot_def dot_pattern_def search_eval)

lemma int_of_digits_10: "int_of_digits [0x31, 0x30] = 10"
  by (simp add: int_of_digits_def digit_val_ascii)

lemma standard_days_then_dot: "parse_standard_date text_days_then_dot = Some date_27_oktyabrya"
  using parse_standard_date_of_dot [OF search_dot_days_then_dot]
  by (simp add: int_of_digits_27 int_of_digits_10 int_of_digits_2025 valid_date_def
      days_in_month_def date_27_oktyabrya_def)

lemma relative_days_then_dot:
  "parse_relative_date clock text_days_then_dot = Some clock_minus_5_days"
proof -
  have f: "first_integer text_days_then_dot = [0x35]"
    by (simp add: text_days_then_dot_def first_integer_def is_digit_small)
  have st: "isin stem_dney text_days_then_dot"
    by (simp add: text_days_then_dot_def stem_dney_def)
  have "list_ex is_digit text_days_then_dot"
    by (simp add: text_days_then_dot_def is_digit_small)
  then show ?thesis
    using parse_relative_date_chain [of text_days_then_dot clock] f st timedelta_days_5
      dt_sub_5_days
    by (simp add: int_of_digits_5 minus_units_def)
qed

lemma clean_days_then_dot:
  "clean_date_text (Some text_days_then_dot) = Inr (Some text_days_then_dot)"
proof -
  have "contains_shape True dot_date_pattern text_days_then_dot"
    using search_dot_days_then_dot
    by (rule search_contains) (simp add: dot_pattern_def dot_date_pattern_def)
  then show ?thesis
    using days_then_dot_nonempty
    by (simp add: clean_date_text_eq sanitized_days_then_dot date_patterns_def)
qed

lemma pw_relative_5_days:
  "pw_parse_relative_date clock text_pw_5_days = Some clock_minus_5_days"
proof -
  have "list_ex is_digit text_pw_5_days" by (simp add: text_pw_5_days_def is_digit_small)
  from findall_first_integer(1) [OF this] obtain ns
    where f: "re_findall_from False number_pattern text_pw_5_days
        = first_integer text_pw_5_days # ns" by blast
  have n: "first_integer text_pw_5_days = [0x35]"
    by (simp add: text_pw_5_days_def first_integer_def is_digit_small)
  have i: "py_int [0x35] = Inr 5"
    using py_int_ok [of "[0x35]"] by (simp add: is_digit_small int_of_digits_5)
  have st: "isin pw_stem_dney text_pw_5_days"
    by (simp add: text_pw_5_days_def pw_stem_dney_def)
  show ?thesis
    by (simp add: pw_parse_relative_date_def pw_parse_relative_date_body_def re_findall_def
        pattern_ok_number f n i st timedelta_days_5 dt_sub_5_days)
qed

lemma pw_relative_days_then_dot: "pw_parse_relative_date now text_days_then_dot = None"
  by (rule pw_parse_relative_date_no_stem)
     (simp_all add: text_days_then_dot_def pw_stem_defs)

theorem dispatch_orders_witness:
  "parse_date_text clock (Some text_days_then_dot) = Inr (Some clock_minus_5_days)
   \<and> rb_article_date text_days_then_dot = None
   \<and> pw_parse_date_text_with Inr pw_parse_russian_date (pw_parse_relative_date clock)
        (Some text_pw_5_days) = Inr (Some clock_minus_5_days)
   \<and> pw_parse_date_text_with Inr pw_parse_russian_date (pw_parse_relative_date clock)
        (Some text_days_then_dot) = Inr None"
proof (intro conjI)
  note a = dispatch_orders [where now = clock and s = text_days_then_dot
      and de = text_days_then_dot and x = None and clean = Inr
      and russian = pw_parse_russian_date and relative = "pw_parse_relative_date clock"]
  note b = dispatch_orders [where now = clock and s = text_pw_5_days
      and de = text_days_then_dot and x = None and clean = Inr
      and russian = pw_parse_russian_date and relative = "pw_parse_relative_date clock"]
  show "parse_date_text clock (Some text_days_then_dot) = Inr (Some clock_minus_5_days)"
    using a clean_days_then_dot russian_days_then_dot relative_days_then_dot by simp
  show "rb_article_date text_days_then_dot = None"
    using a russian_days_then_dot strip_days_then_dot by simp
  have "text_pw_5_days \<noteq> []" by (simp add: text_pw_5_days_def)
  then show "pw_parse_date_text_with Inr pw_parse_russian_date (pw_parse_relative_date clock)
        (Some text_pw_5_days) = Inr (Some clock_minus_5_days)"
    using b by (simp add: pw_parse_russian_date_None pw_relative_5_days)
  show "pw_parse_date_text_with Inr pw_parse_russian_date (pw_parse_relative_date clock)
        (Some text_days_then_dot) = Inr None"
    using a days_then_dot_nonempty
    by (simp add: pw_parse_russian_date_None pw_relative_days_then_dot)
qed

text \<open>
  C4 as stated fails: no spider tries the numeric parser right after the Russian-month
  parser.  On the text "5 dney 27.10.2025" that order gives 27 October 2025; bankinform
  gives the clock minus five days, plusworld does not give that date, and rb gives no
  date.
\<close>

theorem dispatch_orders_counterexample:
  "spec_dispatch [parse_russian_date, parse_standard_date] text_days_then_dot
     = Some date_27_oktyabrya
   \<and> parse_date_text clock (Some text_days_then_dot) = Inr (Some clock_minus_5_days)
   \<and> clock_minus_5_days \<noteq> date_27_oktyabrya
   \<and> pw_parse_date_text clock (Some text_days_then_dot) \<noteq> Inr (Some date_27_oktyabrya)
   \<and> rb_article_date text_days_then_dot = None"
proof (intro conjI)
  show "spec_dispatch [parse_russian_date, parse_standard_date] text_days_then_dot
     = Some date_27_oktyabrya"
    by (simp add: russian_days_then_dot standard_days_then_dot)
  show "parse_date_text clock (Some text_days_then_dot) = Inr (Some clock_minus_5_days)"
    using clean_days_then_dot days_then_dot_nonempty
    by (simp add: parse_date_text_def russian_days_then_dot relative_days_then_dot)
  show "clock_minus_5_days \<noteq> date_27_oktyabrya"
    by (simp add: clock_minus_5_days_def date_27_oktyabrya_def)
  show "pw_parse_date_text clock (Some text_days_then_dot) \<noteq> Inr (Some date_27_oktyabrya)"
    by (simp add: pw_parse_date_text_raises days_then_dot_nonempty)
  show "rb_article_date text_days_then_dot = None"
    by (simp add: rb_article_date_def strip_days_then_dot russian_days_then_dot)
qed

lemma sanitized_5_days_ago: "sanitized text_5_days_ago = text_5_days_ago"
  by (simp add: sanitized_def strip_def icon_pattern_def ws_pattern_def search_eval
      text_5_days_ago_def)

lemma clean_5_days_ago: "clean_date_text (Some text_5_days_ago) = Inr (Some text_5_days_ago)"
proof -
  have "search_from False relative_pattern text_5_days_ago
      = Some [[0x35], [0x20], [0x434, 0x43d, 0x435, 0x439]]"
    by (simp add: text_5_days_ago_def relative_pattern_def search_eval stem_chas_def
        stem_den_def stem_dnya_def stem_dney_def stem_minut_def stem_nedel_def)
  then have "contains_shape True relative_pattern text_5_days_ago"
    by (rule search_contains) simp
  moreover have "text_5_days_ago \<noteq> []" by (simp add: text_5_days_ago_def)
  ultimately show ?thesis
    by (simp add: clean_date_text_eq sanitized_5_days_ago date_patterns_def)
qed

lemma russian_5_days_ago: "parse_russian_date text_5_days_ago = None"
  by (rule parse_russian_date_no_match)
     (simp add: text_5_days_ago_def russian_pattern_def search_eval)

text \<open>
  C5.  The relative parser of plusworld misses the claim: the unit stems in
  \<^verbatim>\<open>plusworld.py\<close> are not the Cyrillic words, so on the text "5 dney nazad" (5 days
  ago) no stem is found and there is no date, and the dispatcher of plusworld does not
  even reach the parser, because its validator raises.  The parser of bankinform, the
  same code with the stems spelled in Cyrillic, returns the clock minus five days, and so
  does its dispatcher.
\<close>

theorem pw_parse_relative_date_misses_days:
  "pw_parse_relative_date now text_5_days_ago = None
   \<and> pw_parse_date_text now (Some text_5_days_ago) = Inl ReError
   \<and> parse_relative_date clock text_5_days_ago = Some clock_minus_5_days
   \<and> parse_date_text clock (Some text_5_days_ago) = Inr (Some clock_minus_5_days)"
proof (intro conjI)
  show "pw_parse_relative_date now text_5_days_ago = None"
    by (rule pw_parse_relative_date_no_stem)
       (simp_all add: text_5_days_ago_def pw_stem_defs)
  have ne: "text_5_days_ago \<noteq> []" by (simp add: text_5_days_ago_def)
  then show "pw_parse_date_text now (Some text_5_days_ago) = Inl ReError"
    by (rule pw_parse_date_text_raises)
  show r: "parse_relative_date clock text_5_days_ago = Some clock_minus_5_days"
    using parse_relative_date_examples by simp
  show "parse_date_text clock (Some text_5_days_ago) = Inr (Some clock_minus_5_days)"
    using clean_5_days_ago ne
    by (simp add: parse_date_text_def russian_5_days_ago r)
qed

end
